theory Spec2Isabelle
  imports Main "HOL-Library.Word"
begin

unbundle bit_operations_syntax

section \<open>Public types of \<^verbatim>\<open>pocketpy.h\<close>\<close>

text \<open>
  \<^verbatim>\<open>py_Name\<close> is \<^verbatim>\<open>uint16_t\<close>, \<^verbatim>\<open>py_Type\<close> is \<^verbatim>\<open>int16_t\<close> (read with \<open>sint\<close>; \<open>0\<close> is
  invalid), \<^verbatim>\<open>py_i64\<close> is \<^verbatim>\<open>int64_t\<close>. A \<^verbatim>\<open>double\<close> is only ever stored by the code
  modelled here, so it is carried as its 64-bit pattern. A \<^verbatim>\<open>py_CFunction\<close> is a function
  pointer, carried as the address of the native function. A C \<^verbatim>\<open>int\<close> is 32 bits wide.
\<close>

type_synonym py_Name = "16 word"
type_synonym py_Type = "16 word"
type_synonym py_i64 = "64 word"
type_synonym py_f64 = "64 word"
type_synonym py_CFunction = nat
type_synonym byte = "8 word"
type_synonym c_int = "32 word"

text \<open>The members of \<^verbatim>\<open>enum py_PredefinedTypes\<close> that the modelled code mentions.\<close>

definition tp_object :: py_Type where "tp_object = 1"
definition tp_type :: py_Type where "tp_type = 2"
definition tp_int :: py_Type where "tp_int = 3"
definition tp_float :: py_Type where "tp_float = 4"
definition tp_bool :: py_Type where "tp_bool = 5"
definition tp_str :: py_Type where "tp_str = 6"
definition tp_slice :: py_Type where "tp_slice = 11"
definition tp_function :: py_Type where "tp_function = 15"
definition tp_nativefunc :: py_Type where "tp_nativefunc = 16"
definition tp_bytes :: py_Type where "tp_bytes = 21"
definition tp_NoneType :: py_Type where "tp_NoneType = 31"
definition tp_NotImplementedType :: py_Type where "tp_NotImplementedType = 32"
definition tp_ellipsis :: py_Type where "tp_ellipsis = 33"
definition tp_StackOverflowError :: py_Type where "tp_StackOverflowError = 39"

text \<open>
  \<^verbatim>\<open>values.c\<close> writes the tags of \<open>None\<close> and \<open>NotImplemented\<close> as \<^verbatim>\<open>tp_none_type\<close> and
  \<^verbatim>\<open>tp_not_implemented_type\<close>; the enum of \<^verbatim>\<open>pocketpy.h\<close> declares these two types as
  \<^verbatim>\<open>tp_NoneType\<close> and \<^verbatim>\<open>tp_NotImplementedType\<close>.
\<close>

definition tp_none_type :: py_Type where "tp_none_type = tp_NoneType"
definition tp_not_implemented_type :: py_Type where
  "tp_not_implemented_type = tp_NotImplementedType"

text \<open>
  \<^verbatim>\<open>BindType\<close> is declared in a header that \<^verbatim>\<open>values.c\<close> includes; \<^verbatim>\<open>values.c\<close> names its
  member \<^verbatim>\<open>BindType_FUNCTION\<close>. The other two members are the binding kinds the type
  object distinguishes (methods, staticmethods, classmethods).
\<close>

datatype BindType = BindType_FUNCTION | BindType_STATICMETHOD | BindType_CLASSMETHOD

section \<open>The value cell\<close>

text \<open>
  \<^verbatim>\<open>struct py_TValue\<close>: a type tag, the \<^verbatim>\<open>is_ptr\<close> flag and a union. The union is a
  datatype with one constructor per member that \<^verbatim>\<open>values.c\<close> writes (\<^verbatim>\<open>_i64\<close>, \<^verbatim>\<open>_f64\<close>,
  \<^verbatim>\<open>_bool\<close>, \<^verbatim>\<open>_cfunc\<close>, \<^verbatim>\<open>_obj\<close>); a \<^verbatim>\<open>PyObject*\<close> is the address of the object in
  the managed heap.
\<close>

datatype payload =
    P_i64 py_i64
  | P_f64 py_f64
  | P_bool bool
  | P_cfunc py_CFunction
  | P_obj nat

record py_TValue =
  type :: py_Type
  is_ptr :: bool
  payload :: payload

text \<open>\<^verbatim>\<open>py_NIL\<close>: the cell whose tag is \<open>0\<close>.\<close>

definition py_NIL :: py_TValue where
  "py_NIL = \<lparr>type = 0, is_ptr = False, payload = P_i64 0\<rparr>"

definition py_isnil :: "py_TValue \<Rightarrow> bool" where
  "py_isnil self = (type self = 0)"

section \<open>Immediate constructors of \<^verbatim>\<open>values.c\<close>\<close>

text \<open>
  An output parameter \<^verbatim>\<open>py_Ref out\<close> is passed as the content of the cell on entry;
  the function returns the content on exit. Each field assignment of the C body is one
  record update, so a field the body does not assign keeps its old value.
\<close>

definition py_newint :: "py_TValue \<Rightarrow> py_i64 \<Rightarrow> py_TValue" where
  "py_newint out val = out\<lparr>type := tp_int, is_ptr := False, payload := P_i64 val\<rparr>"

definition py_newfloat :: "py_TValue \<Rightarrow> py_f64 \<Rightarrow> py_TValue" where
  "py_newfloat out val = out\<lparr>type := tp_float, is_ptr := False, payload := P_f64 val\<rparr>"

definition py_newbool :: "py_TValue \<Rightarrow> bool \<Rightarrow> py_TValue" where
  "py_newbool out val = out\<lparr>type := tp_bool, is_ptr := False, payload := P_bool val\<rparr>"

definition py_newnone :: "py_TValue \<Rightarrow> py_TValue" where
  "py_newnone out = out\<lparr>type := tp_none_type, is_ptr := False\<rparr>"

definition py_newnotimplemented :: "py_TValue \<Rightarrow> py_TValue" where
  "py_newnotimplemented out = out\<lparr>type := tp_not_implemented_type, is_ptr := False\<rparr>"

definition py_newellipsis :: "py_TValue \<Rightarrow> py_TValue" where
  "py_newellipsis out = out\<lparr>type := tp_ellipsis, is_ptr := False\<rparr>"

definition py_newnull :: "py_TValue \<Rightarrow> py_TValue" where
  "py_newnull out = out\<lparr>type := 0\<rparr>"

definition py_newnativefunc :: "py_TValue \<Rightarrow> py_CFunction \<Rightarrow> py_TValue" where
  "py_newnativefunc out f = out\<lparr>type := tp_nativefunc, is_ptr := False, payload := P_cfunc f\<rparr>"

section \<open>Errors\<close>

text \<open>
  The C code has no checked failure of its own. \<open>InvalidAccess\<close> stands for a call outside
  the domain of the C function (a size that does not fit the buffer it describes, a cell
  that is not a pointer where one is dereferenced, an index outside an array): the C
  behaviour there is undefined. \<open>NamePoolOverflow\<close> is the abort of the name pool when the
  16-bit id space is used up.
\<close>

datatype vm_error = InvalidAccess | NamePoolOverflow

section \<open>The managed heap\<close>

text \<open>
  Modelled from the spec: the heap object \<^verbatim>\<open>PyObject\<close>, whose declaration is not part of the
  files at hand. Every heap object carries its type, a GC mark bit, a slot count, the
  slots (child cells), an optional attribute store (a map from name ids to cells) and a
  user-data region of bytes, where \<open>None\<close> is a byte that was never written.
\<close>

record PyObject =
  ob_type :: py_Type
  gc_marked :: bool
  ob_slots :: int
  ob_cells :: "py_TValue list"
  ob_dict :: "(py_Name \<rightharpoonup> py_TValue) option"
  ob_userdata :: "byte option list"

text \<open>
  Modelled from the spec: the allocation \<^verbatim>\<open>pk_ManagedHeap__gcnew(heap, type, slots,
  udsize)\<close>, whose source is not part of the files at hand. It fills the header,
  initialises the slots to nil and leaves the user-data uninitialised. A slot count of
  \<open>-1\<close> asks for an attribute store instead of slots (\<^verbatim>\<open>pocketpy.h\<close>, \<^verbatim>\<open>py_newobject\<close>); a
  smaller count or a negative size is outside the domain. The heap is the list of its
  objects and the address of an object is its position, so an allocation never moves or
  changes an object that exists. The allocator is assumed not to run out of memory.
\<close>

definition pk_ManagedHeap__gcnew ::
  "PyObject list \<Rightarrow> py_Type \<Rightarrow> int \<Rightarrow> int \<Rightarrow> vm_error + (nat \<times> PyObject list)" where
  "pk_ManagedHeap__gcnew h ty slots udsize =
     (if slots < - 1 \<or> udsize < 0 then Inl InvalidAccess
      else Inr (length h,
                h @ [\<lparr>ob_type = ty, gc_marked = False, ob_slots = slots,
                      ob_cells = replicate (nat slots) py_NIL,
                      ob_dict = (if slots = - 1 then Some Map.empty else None),
                      ob_userdata = replicate (nat udsize) None\<rparr>]))"

text \<open>
  Modelled from the spec: \<^verbatim>\<open>PyObject__value(obj)\<close>, whose source is not part of the files at
  hand: the user-data region of the object, which lies behind the header and the slots.
\<close>

definition PyObject__value :: "PyObject \<Rightarrow> byte option list" where
  "PyObject__value obj = ob_userdata obj"

subsection \<open>Writing into a user-data region\<close>

text \<open>
  A store of the bytes \<open>bs\<close> at offset \<open>off\<close> of a region; a store that does not fit the
  region is outside the domain of the C code.
\<close>

definition ud_write :: "nat \<Rightarrow> byte list \<Rightarrow> byte option list \<Rightarrow> vm_error + byte option list" where
  "ud_write off bs ud =
     (if off + length bs \<le> length ud
      then Inr (take off ud @ map Some bs @ drop (off + length bs) ud)
      else Inl InvalidAccess)"

text \<open>
  \<^verbatim>\<open>memcpy(dst + off, src, n)\<close> with \<open>n\<close> of type \<^verbatim>\<open>size_t\<close>: reading more than \<open>src\<close> holds is
  outside the domain.
\<close>

definition memcpy :: "nat \<Rightarrow> byte list \<Rightarrow> nat \<Rightarrow> byte option list \<Rightarrow> vm_error + byte option list" where
  "memcpy off src n ud =
     (if n \<le> length src then ud_write off (take n src) ud else Inl InvalidAccess)"

text \<open>
  The four bytes of an \<^verbatim>\<open>int\<close> in memory, least significant byte first, and the \<^verbatim>\<open>int\<close>
  that four bytes in memory hold. \<^verbatim>\<open>sizeof(int)\<close> is \<open>4\<close> (\<^verbatim>\<open>values.c\<close>: ``4 bytes size +
  data'').
\<close>

definition int_bytes :: "c_int \<Rightarrow> byte list" where
  "int_bytes x = map (\<lambda>k. ucast (drop_bit (8 * k) x)) [0, 1, 2, 3]"


definition sizeof_int :: nat where
  "sizeof_int = 4"

text \<open>The conversion of an \<^verbatim>\<open>int\<close> to \<^verbatim>\<open>size_t\<close> (64 bits, sign-extended).\<close>

definition size_t_of_int :: "c_int \<Rightarrow> 64 word" where
  "size_t_of_int n = scast n"

text \<open>
  The conversion of a \<^verbatim>\<open>size_t\<close> to an \<^verbatim>\<open>int\<close>, as at a call that passes a \<^verbatim>\<open>size_t\<close> for an
  \<^verbatim>\<open>int\<close> parameter: the low 32 bits.
\<close>

definition int_of_size_t :: "64 word \<Rightarrow> c_int" where
  "int_of_size_t n = ucast n"

text \<open>
  \<^verbatim>\<open>strlen\<close>: the number of bytes before the first NUL of a C string; a buffer with no
  NUL is outside the domain.
\<close>

definition strlen :: "byte list \<Rightarrow> nat option" where
  "strlen s = (if 0 \<in> set s then Some (length (takeWhile (\<lambda>c. c \<noteq> 0) s)) else None)"

text \<open>
  Modelled from the spec: \<^verbatim>\<open>sizeof(c11_string)\<close>; the declaration of \<^verbatim>\<open>c11_string\<close> is not
  part of the files at hand. A \<open>str\<close> keeps a length-prefixed byte buffer in its
  user-data, so the struct is the length, an \<^verbatim>\<open>int\<close>, in front of the bytes.
\<close>

definition sizeof_c11_string :: nat where
  "sizeof_c11_string = 4"

text \<open>
  Modelled from the spec: \<^verbatim>\<open>c11_string__ctor2(ud, data, size)\<close>, whose source is not part of
  the files at hand. It stores the length, copies \<open>size\<close> bytes behind it and ends them
  with a NUL, for which \<^verbatim>\<open>py_newstrn\<close> reserves the one byte more.
\<close>

definition c11_string__ctor2 ::
  "byte option list \<Rightarrow> byte list \<Rightarrow> c_int \<Rightarrow> vm_error + byte option list" where
  "c11_string__ctor2 ud data sz =
     (case ud_write 0 (int_bytes sz) ud of
        Inl e \<Rightarrow> Inl e
      | Inr ud1 \<Rightarrow>
         (case memcpy sizeof_c11_string data (unat (size_t_of_int sz)) ud1 of
            Inl e \<Rightarrow> Inl e
          | Inr ud2 \<Rightarrow> ud_write (sizeof_c11_string + unat (size_t_of_int sz)) [0] ud2))"

section \<open>The VM\<close>

text \<open>
  Modelled from the spec: the type registry entry \<^verbatim>\<open>pk_TypeInfo\<close>, whose declaration is not
  part of the files at hand. For each type the registry keeps the display name, the base
  type (\<open>0\<close> for none: the chain ends at \<open>object\<close>), the type object (\<^verbatim>\<open>py_tpobject\<close>), the
  owning module (nil for a built-in), the optional destructor and the fixed-length
  vector of magic slots indexed by magic-name id (each entry nil or a callable value).
\<close>

record pk_TypeInfo =
  ti_name :: string
  ti_base :: py_Type
  ti_self :: py_TValue
  ti_module :: py_TValue
  ti_dtor :: "nat option"
  ti_magic :: "py_TValue list"

text \<open>
  \<^verbatim>\<open>pk_current_vm\<close>, passed explicitly: the managed heap, the type registry (a type id is
  an index; index \<open>0\<close> is not a type), the name pool (the name with id \<open>n\<close> is at position
  \<open>n - 1\<close>; id \<open>0\<close> is reserved; the pool is carried in the state because interning
  changes it), the cells outside the heap that a \<^verbatim>\<open>py_Ref\<close> can point to
  (registers, globals, temporaries) keyed by address, the live part of the value stack
  (top last), the current exception slot with its handled flag, and the register of the
  last return value.
\<close>

record VM =
  heap :: "PyObject list"
  types :: "pk_TypeInfo list"
  interned :: "string list"
  cells :: "nat \<Rightarrow> py_TValue"
  stack :: "py_TValue list"
  curr_exception :: py_TValue
  is_curr_exc_handled :: bool
  last_retval :: py_TValue

section \<open>Heap constructors of \<^verbatim>\<open>values.c\<close>\<close>

text \<open>
  \<^verbatim>\<open>int total_size = sizeof(c11_string) + size + 1\<close> is computed in \<^verbatim>\<open>size_t\<close> and cut to
  an \<^verbatim>\<open>int\<close>, which is the sum in 32-bit arithmetic.
\<close>

definition py_newstrn ::
  "py_TValue \<Rightarrow> byte list \<Rightarrow> c_int \<Rightarrow> VM \<Rightarrow> vm_error + (py_TValue \<times> VM)" where
  "py_newstrn out data sz vm =
     (let total_size = (of_nat sizeof_c11_string + sz + 1 :: c_int) in
      case pk_ManagedHeap__gcnew (heap vm) tp_str 0 (sint total_size) of
        Inl e \<Rightarrow> Inl e
      | Inr (obj, h1) \<Rightarrow>
         (case c11_string__ctor2 (PyObject__value (h1 ! obj)) data sz of
            Inl e \<Rightarrow> Inl e
          | Inr ud \<Rightarrow>
              Inr (out\<lparr>type := tp_str, is_ptr := True, payload := P_obj obj\<rparr>,
                   vm\<lparr>heap := h1[obj := (h1 ! obj)\<lparr>ob_userdata := ud\<rparr>]\<rparr>)))"

definition py_newstr :: "py_TValue \<Rightarrow> byte list \<Rightarrow> VM \<Rightarrow> vm_error + (py_TValue \<times> VM)" where
  "py_newstr out data vm =
     (case strlen data of
        None \<Rightarrow> Inl InvalidAccess
      | Some n \<Rightarrow> py_newstrn out data (of_nat n) vm)"

text \<open>
  \<^verbatim>\<open>py_newbytes\<close>: the user-data size \<^verbatim>\<open>sizeof(int) + size\<close> is a \<^verbatim>\<open>size_t\<close> sum, which the
  call hands to the \<^verbatim>\<open>int\<close> size parameter of the allocation (the parameter that
  \<^verbatim>\<open>py_newstrn\<close> fills with \<^verbatim>\<open>int total_size\<close> and \<^verbatim>\<open>py_newobject\<close> with \<^verbatim>\<open>int udsize\<close>), so
  the allocation sees the low 32 bits of the sum as a signed number. \<^verbatim>\<open>*psize = size\<close>
  stores the \<^verbatim>\<open>int\<close> at the start of the user-data and \<^verbatim>\<open>memcpy(psize + 1, data, size)\<close>
  copies behind it.
\<close>

definition py_newbytes ::
  "py_TValue \<Rightarrow> byte list \<Rightarrow> c_int \<Rightarrow> VM \<Rightarrow> vm_error + (py_TValue \<times> VM)" where
  "py_newbytes out data sz vm =
     (case pk_ManagedHeap__gcnew (heap vm) tp_bytes 0
             (sint (int_of_size_t (of_nat sizeof_int + size_t_of_int sz))) of
        Inl e \<Rightarrow> Inl e
      | Inr (obj, h1) \<Rightarrow>
         (case ud_write 0 (int_bytes sz) (PyObject__value (h1 ! obj)) of
            Inl e \<Rightarrow> Inl e
          | Inr ud1 \<Rightarrow>
             (case memcpy sizeof_int data (unat (size_t_of_int sz)) ud1 of
                Inl e \<Rightarrow> Inl e
              | Inr ud2 \<Rightarrow>
                  Inr (out\<lparr>type := tp_bytes, is_ptr := True, payload := P_obj obj\<rparr>,
                       vm\<lparr>heap := h1[obj := (h1 ! obj)\<lparr>ob_userdata := ud2\<rparr>]\<rparr>))))"

definition py_newobject ::
  "py_TValue \<Rightarrow> py_Type \<Rightarrow> c_int \<Rightarrow> c_int \<Rightarrow> VM \<Rightarrow> vm_error + (py_TValue \<times> VM)" where
  "py_newobject out ty slots udsize vm =
     (case pk_ManagedHeap__gcnew (heap vm) ty (sint slots) (sint udsize) of
        Inl e \<Rightarrow> Inl e
      | Inr (obj, h1) \<Rightarrow>
          Inr (out\<lparr>type := ty, is_ptr := True, payload := P_obj obj\<rparr>, vm\<lparr>heap := h1\<rparr>))"

text \<open>
  \<^verbatim>\<open>py_newfunction2\<close> has an empty body; \<^verbatim>\<open>py_newfunction\<close> calls it with
  \<^verbatim>\<open>BindType_FUNCTION\<close> and two null pointers (\<open>None\<close>).
\<close>

definition py_newfunction2 ::
  "py_TValue \<Rightarrow> py_CFunction \<Rightarrow> string \<Rightarrow> BindType \<Rightarrow> string option \<Rightarrow> py_TValue option
     \<Rightarrow> VM \<Rightarrow> py_TValue \<times> VM" where
  "py_newfunction2 out f sig bt docstring upvalue vm = (out, vm)"

definition py_newfunction :: "py_TValue \<Rightarrow> py_CFunction \<Rightarrow> string \<Rightarrow> VM \<Rightarrow> py_TValue \<times> VM" where
  "py_newfunction out f sig vm = py_newfunction2 out f sig BindType_FUNCTION None None vm"

section \<open>The name pool\<close>

text \<open>
  The pool maps byte sequences to 16-bit ids and back. The position of the first
  occurrence of an element in a list; the number of ids: id \<open>0\<close> is reserved
  (\<^verbatim>\<open>py_MagicNames__NULL\<close>), so the ids are \<open>1 .. 65535\<close>.
\<close>

fun index_of :: "'a \<Rightarrow> 'a list \<Rightarrow> nat option" where
  "index_of x [] = None"
| "index_of x (y # ys) = (if x = y then Some 0 else map_option Suc (index_of x ys))"

definition max_names :: nat where
  "max_names = 65535"

text \<open>
  Modelled from the spec: \<^verbatim>\<open>py_name\<close> (intern), which \<^verbatim>\<open>pocketpy.h\<close> declares and whose source
  is not part of the files at hand. Interning a sequence that is in the pool returns its
  id; a new sequence gets the next id (ids are assigned monotonically, and what is in
  the pool is never touched); when the 16-bit id space is used up the VM aborts. The
  argument is the byte sequence of the C string, without its NUL.
\<close>

definition py_name :: "string \<Rightarrow> VM \<Rightarrow> vm_error + (py_Name \<times> VM)" where
  "py_name s vm =
     (case index_of s (interned vm) of
        Some i \<Rightarrow> Inr (of_nat (Suc i), vm)
      | None \<Rightarrow>
          if max_names \<le> length (interned vm) then Inl NamePoolOverflow
          else Inr (of_nat (Suc (length (interned vm))), vm\<lparr>interned := interned vm @ [s]\<rparr>))"

text \<open>
  Modelled from the spec: \<^verbatim>\<open>py_name2str\<close> (lookup), which \<^verbatim>\<open>pocketpy.h\<close> declares and whose
  source is not part of the files at hand: the bytes stored for an id. Looking up an id
  that was never handed out is outside the domain.
\<close>

definition py_name2str :: "py_Name \<Rightarrow> VM \<Rightarrow> vm_error + string" where
  "py_name2str n vm =
     (if n = 0 \<or> length (interned vm) < unat n then Inl InvalidAccess
      else Inr (interned vm ! (unat n - 1)))"

text \<open>
  The name pool is well formed when no byte sequence is stored twice and the ids fit 16
  bits; an id is interned when it has been handed out; a later state keeps the names of
  an earlier one when the earlier pool is a prefix of the later.
\<close>

definition pool_inv :: "VM \<Rightarrow> bool" where
  "pool_inv vm = (distinct (interned vm) \<and> length (interned vm) \<le> max_names)"

definition is_interned :: "VM \<Rightarrow> py_Name \<Rightarrow> bool" where
  "is_interned vm n = (n \<noteq> 0 \<and> unat n \<le> length (interned vm))"

definition names_kept :: "VM \<Rightarrow> VM \<Rightarrow> bool" where
  "names_kept vm vm' =
     (length (interned vm) \<le> length (interned vm')
      \<and> take (length (interned vm)) (interned vm') = interned vm)"

section \<open>The type registry and the attribute store\<close>

text \<open>A type id as an index of the registry; the ids in use.\<close>

definition type_index :: "py_Type \<Rightarrow> nat" where
  "type_index t = nat (sint t)"

definition valid_type :: "pk_TypeInfo list \<Rightarrow> py_Type \<Rightarrow> bool" where
  "valid_type ts t = (0 < sint t \<and> type_index t < length ts)"

text \<open>
  Modelled from the spec: \<^verbatim>\<open>py_tpobject\<close> (``get the type object of the given type''),
  declared in \<^verbatim>\<open>pocketpy.h\<close>; its source is not part of the files at hand. The result is
  the content of the cell the returned reference points to.
\<close>

definition py_tpobject :: "py_Type \<Rightarrow> VM \<Rightarrow> vm_error + py_TValue" where
  "py_tpobject ty vm =
     (if valid_type (types vm) ty then Inr (ti_self (types vm ! type_index ty))
      else Inl InvalidAccess)"

text \<open>
  Modelled from the spec: \<^verbatim>\<open>py_setdict\<close> (``set an item to the object's \<^verbatim>\<open>__dict__\<close>''),
  declared in \<^verbatim>\<open>pocketpy.h\<close>; its source is not part of the files at hand. It takes the
  content of the cells its \<^verbatim>\<open>py_Ref\<close> arguments point to at the time of the call and
  changes the attribute store of one heap object; a cell that is not a pointer to an
  object with an attribute store is outside the domain.
\<close>

definition py_setdict :: "py_TValue \<Rightarrow> py_Name \<Rightarrow> py_TValue \<Rightarrow> VM \<Rightarrow> vm_error + VM" where
  "py_setdict self name val vm =
     (if \<not> is_ptr self then Inl InvalidAccess
      else case payload self of
        P_obj a \<Rightarrow>
          if a < length (heap vm) then
            (case ob_dict (heap vm ! a) of
               Some d \<Rightarrow>
                 Inr (vm\<lparr>heap := (heap vm)[a := (heap vm ! a)\<lparr>ob_dict := Some (d(name \<mapsto> val))\<rparr>]\<rparr>)
             | None \<Rightarrow> Inl InvalidAccess)
          else Inl InvalidAccess
      | _ \<Rightarrow> Inl InvalidAccess)"

text \<open>
  Modelled from the spec: \<^verbatim>\<open>py_setslot\<close> (``set the i-th slot of the object''; the object
  must have slots and \<open>i\<close> must be in range), declared in \<^verbatim>\<open>pocketpy.h\<close>; its source is not
  part of the files at hand. It takes the content of the cells its \<^verbatim>\<open>py_Ref\<close> arguments
  point to at the time of the call and changes one slot of one heap object.
\<close>

definition py_setslot :: "py_TValue \<Rightarrow> c_int \<Rightarrow> py_TValue \<Rightarrow> VM \<Rightarrow> vm_error + VM" where
  "py_setslot self i val vm =
     (if \<not> is_ptr self then Inl InvalidAccess
      else case payload self of
        P_obj a \<Rightarrow>
          if a < length (heap vm) \<and> 0 \<le> sint i \<and> sint i < ob_slots (heap vm ! a)
             \<and> nat (sint i) < length (ob_cells (heap vm ! a))
          then Inr (vm\<lparr>heap := (heap vm)[a := (heap vm ! a)
                      \<lparr>ob_cells := (ob_cells (heap vm ! a))[nat (sint i) := val]\<rparr>]\<rparr>)
          else Inl InvalidAccess
      | _ \<Rightarrow> Inl InvalidAccess)"

subsection \<open>Magic slots\<close>

text \<open>
  A reference (\<^verbatim>\<open>py_ItemRef\<close>) to a magic slot of the registry is the pair of the type and
  the name.
\<close>

datatype magic_ref = MagicSlot py_Type py_Name

text \<open>
  Modelled from the spec: \<^verbatim>\<open>py_tpgetmagic\<close>, which \<^verbatim>\<open>pocketpy.h\<close> declares and whose source is
  not part of the files at hand. \<^verbatim>\<open>py_tpgetmagic(T, name)\<close> is the reference to the slot of
  \<open>T\<close> itself and never walks; the cell behind it may be nil.
\<close>

definition py_tpgetmagic :: "py_Type \<Rightarrow> py_Name \<Rightarrow> magic_ref" where
  "py_tpgetmagic ty name = MagicSlot ty name"

text \<open>
  Reading through a reference; it is outside the domain when the type is not registered
  or the name is not the index of a magic slot.
\<close>

fun magic_deref :: "pk_TypeInfo list \<Rightarrow> magic_ref \<Rightarrow> vm_error + py_TValue" where
  "magic_deref ts (MagicSlot t n) =
     (if valid_type ts t \<and> unat n < length (ti_magic (ts ! type_index t))
      then Inr (ti_magic (ts ! type_index t) ! unat n)
      else Inl InvalidAccess)"

text \<open>
  Modelled from the spec: the walk of \<^verbatim>\<open>py_tpfindmagic\<close>, which \<^verbatim>\<open>pocketpy.h\<close> declares and
  whose source is not part of the files at hand. \<^verbatim>\<open>py_tpfindmagic(T, name)\<close> walks \<open>T\<close>, its
  base, the base of that, and so on, and returns the reference to the first slot that
  is not nil, or \<^verbatim>\<open>NULL\<close> (\<open>None\<close>) when the chain ends (the base is \<open>0\<close>) without one.
  Nothing in a registry entry bounds the walk, so the function is partial: the outer
  \<open>None\<close> is a walk that does not end.
\<close>

partial_function (option) tpfindmagic_walk ::
  "pk_TypeInfo list \<Rightarrow> py_Type \<Rightarrow> py_Name \<Rightarrow> (vm_error + magic_ref option) option" where
  "tpfindmagic_walk ts t name =
     (case magic_deref ts (py_tpgetmagic t name) of
        Inl e \<Rightarrow> Some (Inl e)
      | Inr f \<Rightarrow>
          if \<not> py_isnil f then Some (Inr (Some (py_tpgetmagic t name)))
          else if ti_base (ts ! type_index t) = 0 then Some (Inr None)
          else tpfindmagic_walk ts (ti_base (ts ! type_index t)) name)"

declare tpfindmagic_walk.simps [code]

text \<open>Modelled from the spec: \<^verbatim>\<open>py_tpfindmagic\<close> on the registry of the current VM.\<close>

definition py_tpfindmagic ::
  "py_Type \<Rightarrow> py_Name \<Rightarrow> VM \<Rightarrow> (vm_error + magic_ref option) option" where
  "py_tpfindmagic t name vm = tpfindmagic_walk (types vm) t name"

text \<open>
  The ancestors of a type in base-chain order, \<open>T = T\<^sub>0, T\<^sub>1, \<dots>\<close> up to the type without
  a base. Types are registered in insertion order with a base that exists already, so
  in a registry built that way the base of a type has a smaller id (\<open>wf_registry\<close>).
\<close>

inductive base_chain :: "pk_TypeInfo list \<Rightarrow> py_Type \<Rightarrow> py_Type list \<Rightarrow> bool" where
  root: "valid_type ts t \<Longrightarrow> ti_base (ts ! type_index t) = 0 \<Longrightarrow> base_chain ts t [t]"
| step: "valid_type ts t \<Longrightarrow> ti_base (ts ! type_index t) \<noteq> 0 \<Longrightarrow>
         base_chain ts (ti_base (ts ! type_index t)) bs \<Longrightarrow> base_chain ts t (t # bs)"

code_pred base_chain .

definition wf_registry :: "pk_TypeInfo list \<Rightarrow> bool" where
  "wf_registry ts =
     (\<forall>t. valid_type ts t \<longrightarrow>
        ti_base (ts ! type_index t) = 0
        \<or> (valid_type ts (ti_base (ts ! type_index t))
            \<and> type_index (ti_base (ts ! type_index t)) < type_index t))"

text \<open>Whether the slot of \<open>name\<close> in the type itself holds a value that is not nil.\<close>

definition magic_nonnil :: "pk_TypeInfo list \<Rightarrow> py_Name \<Rightarrow> py_Type \<Rightarrow> bool" where
  "magic_nonnil ts name t =
     (case magic_deref ts (py_tpgetmagic t name) of
        Inl e \<Rightarrow> False
      | Inr f \<Rightarrow> \<not> py_isnil f)"

definition has_magic_slot :: "pk_TypeInfo list \<Rightarrow> py_Name \<Rightarrow> py_Type \<Rightarrow> bool" where
  "has_magic_slot ts name t = (unat name < length (ti_magic (ts ! type_index t)))"

section \<open>The value stack\<close>

text \<open>\<^verbatim>\<open>PK_VM_STACK_SIZE\<close> of \<^verbatim>\<open>config.h\<close>: the maximum size of the value stack, in cells.\<close>

definition PK_VM_STACK_SIZE :: nat where
  "PK_VM_STACK_SIZE = 16384"

text \<open>
  Modelled from the spec: raising an exception of a type, whose source (\<^verbatim>\<open>py_exception\<close>)
  is not part of the files at hand. An exception is a heap object of its type with 2
  slots (the argument tuple and the inner exception, left nil here: the message is not
  modelled); raising deposits it in the exception slot of the VM and moves the
  exception channel to \<open>raised\<close> (not handled).
\<close>

definition py_exception :: "py_Type \<Rightarrow> VM \<Rightarrow> VM" where
  "py_exception ty vm =
     (case pk_ManagedHeap__gcnew (heap vm) ty 2 0 of
        Inl e \<Rightarrow> vm
      | Inr (obj, h1) \<Rightarrow>
          vm\<lparr>heap := h1,
             curr_exception := \<lparr>type = ty, is_ptr = True, payload = P_obj obj\<rparr>,
             is_curr_exc_handled := False\<rparr>)"

text \<open>
  Modelled from the spec: \<^verbatim>\<open>py_push\<close>, which \<^verbatim>\<open>pocketpy.h\<close> declares (\<^verbatim>\<open>void py_push(py_Ref
  src)\<close>, ``push the object to the stack'') and whose source is not part of the files at
  hand. The height of the value stack is at most \<^verbatim>\<open>PK_VM_STACK_SIZE\<close>; pushing when the
  height equals it raises \<open>StackOverflowError\<close>; otherwise the content of \<open>src\<close> becomes the
  new top.
\<close>

definition py_push :: "py_TValue \<Rightarrow> VM \<Rightarrow> VM" where
  "py_push src vm =
     (if length (stack vm) < PK_VM_STACK_SIZE then vm\<lparr>stack := stack vm @ [src]\<rparr>
      else py_exception tp_StackOverflowError vm)"

section \<open>Bindings of \<^verbatim>\<open>values.c\<close>\<close>

text \<open>
  The local \<^verbatim>\<open>py_TValue tmp\<close> is not initialised: its content on entry is the first
  argument of the model. \<^verbatim>\<open>py_tpobject(type)\<close> only reads the registry and \<^verbatim>\<open>py_name(name)\<close>
  only touches the name pool, so the order in which C evaluates the two arguments of
  \<^verbatim>\<open>py_setdict\<close> does not show in the resulting state.
\<close>

definition py_bindmethod2 ::
  "py_TValue \<Rightarrow> py_Type \<Rightarrow> string \<Rightarrow> py_CFunction \<Rightarrow> BindType \<Rightarrow> VM \<Rightarrow> vm_error + VM" where
  "py_bindmethod2 tmp ty name f bt vm =
     (let tmp1 = py_newnativefunc tmp f in
      case py_tpobject ty vm of
        Inl e \<Rightarrow> Inl e
      | Inr self \<Rightarrow>
         (case py_name name vm of
            Inl e \<Rightarrow> Inl e
          | Inr (n, vm1) \<Rightarrow> py_setdict self n tmp1 vm1))"

definition py_bindmethod ::
  "py_TValue \<Rightarrow> py_Type \<Rightarrow> string \<Rightarrow> py_CFunction \<Rightarrow> VM \<Rightarrow> vm_error + VM" where
  "py_bindmethod tmp ty name f vm = py_bindmethod2 tmp ty name f BindType_FUNCTION vm"

definition py_bindnativefunc ::
  "py_TValue \<Rightarrow> py_TValue \<Rightarrow> string \<Rightarrow> py_CFunction \<Rightarrow> VM \<Rightarrow> vm_error + VM" where
  "py_bindnativefunc tmp obj name f vm =
     (let tmp1 = py_newnativefunc tmp f in
      case py_name name vm of
        Inl e \<Rightarrow> Inl e
      | Inr (n, vm1) \<Rightarrow> py_setdict obj n tmp1 vm1)"

section \<open>Calls through references\<close>

text \<open>
  A \<^verbatim>\<open>py_Ref\<close> that a caller passes is the address of a cell of the store \<open>cells\<close>.
  \<open>call_out out f\<close> runs a constructor with its output parameter pointing at the cell
  \<open>out\<close>: the constructor gets the content of the cell and the cell receives what the
  constructor leaves in it.
\<close>

type_synonym py_Ref = nat

definition call_out ::
  "py_Ref \<Rightarrow> (py_TValue \<Rightarrow> VM \<Rightarrow> vm_error + (py_TValue \<times> VM)) \<Rightarrow> VM \<Rightarrow> vm_error + VM" where
  "call_out out f vm =
     (case f (cells vm out) vm of
        Inl e \<Rightarrow> Inl e
      | Inr (c, vm') \<Rightarrow> Inr (vm'\<lparr>cells := (cells vm')(out := c)\<rparr>))"

definition set_out :: "py_Ref \<Rightarrow> (py_TValue \<Rightarrow> py_TValue) \<Rightarrow> VM \<Rightarrow> vm_error + VM" where
  "set_out out f vm = Inr (vm\<lparr>cells := (cells vm)(out := f (cells vm out))\<rparr>)"

text \<open>
  \<^verbatim>\<open>py_newslice\<close> writes through \<^verbatim>\<open>out\<close> first and reads through \<^verbatim>\<open>start\<close>, \<^verbatim>\<open>stop\<close> and
  \<^verbatim>\<open>step\<close> afterwards, so it is modelled on the store: each \<^verbatim>\<open>py_setslot(out, i, x)\<close>
  reads the cells \<open>out\<close> and \<open>x\<close> as they are when it is called.
\<close>

definition py_newslice :: "py_Ref \<Rightarrow> py_Ref \<Rightarrow> py_Ref \<Rightarrow> py_Ref \<Rightarrow> VM \<Rightarrow> vm_error + VM" where
  "py_newslice out start stop step vm =
     (case call_out out (\<lambda>c. py_newobject c tp_slice 3 0) vm of
        Inl e \<Rightarrow> Inl e
      | Inr vm1 \<Rightarrow>
         (case py_setslot (cells vm1 out) 0 (cells vm1 start) vm1 of
            Inl e \<Rightarrow> Inl e
          | Inr vm2 \<Rightarrow>
             (case py_setslot (cells vm2 out) 1 (cells vm2 stop) vm2 of
                Inl e \<Rightarrow> Inl e
              | Inr vm3 \<Rightarrow> py_setslot (cells vm3 out) 2 (cells vm3 step) vm3)))"

text \<open>
  The functions of \<^verbatim>\<open>values.c\<close> as calls a client can make, and a client as a list of
  calls. A call that fails ends the run. The uninitialised local of a binding function
  is taken to hold nil; what it holds does not matter, since \<^verbatim>\<open>py_newnativefunc\<close> assigns
  every field of it (\<open>py_newnativefunc_tmp\<close> below).
\<close>

datatype api_call =
    Call_newint py_Ref py_i64
  | Call_newfloat py_Ref py_f64
  | Call_newbool py_Ref bool
  | Call_newnone py_Ref
  | Call_newnotimplemented py_Ref
  | Call_newellipsis py_Ref
  | Call_newnull py_Ref
  | Call_newstr py_Ref "byte list"
  | Call_newstrn py_Ref "byte list" c_int
  | Call_newbytes py_Ref "byte list" c_int
  | Call_newfunction py_Ref py_CFunction string
  | Call_newfunction2 py_Ref py_CFunction string BindType "string option" "py_Ref option"
  | Call_newnativefunc py_Ref py_CFunction
  | Call_bindmethod py_Type string py_CFunction
  | Call_bindmethod2 py_Type string py_CFunction BindType
  | Call_bindnativefunc py_Ref string py_CFunction
  | Call_newslice py_Ref py_Ref py_Ref py_Ref
  | Call_newobject py_Ref py_Type c_int c_int

fun exec :: "api_call \<Rightarrow> VM \<Rightarrow> vm_error + VM" where
  "exec (Call_newint out val) vm = set_out out (\<lambda>c. py_newint c val) vm"
| "exec (Call_newfloat out val) vm = set_out out (\<lambda>c. py_newfloat c val) vm"
| "exec (Call_newbool out val) vm = set_out out (\<lambda>c. py_newbool c val) vm"
| "exec (Call_newnone out) vm = set_out out py_newnone vm"
| "exec (Call_newnotimplemented out) vm = set_out out py_newnotimplemented vm"
| "exec (Call_newellipsis out) vm = set_out out py_newellipsis vm"
| "exec (Call_newnull out) vm = set_out out py_newnull vm"
| "exec (Call_newstr out data) vm = call_out out (\<lambda>c. py_newstr c data) vm"
| "exec (Call_newstrn out data sz) vm = call_out out (\<lambda>c. py_newstrn c data sz) vm"
| "exec (Call_newbytes out data sz) vm = call_out out (\<lambda>c. py_newbytes c data sz) vm"
| "exec (Call_newfunction out f sig) vm =
     call_out out (\<lambda>c v. Inr (py_newfunction c f sig v)) vm"
| "exec (Call_newfunction2 out f sig bt docstring upvalue) vm =
     call_out out
       (\<lambda>c v. Inr (py_newfunction2 c f sig bt docstring (map_option (cells v) upvalue) v)) vm"
| "exec (Call_newnativefunc out f) vm = set_out out (\<lambda>c. py_newnativefunc c f) vm"
| "exec (Call_bindmethod ty name f) vm = py_bindmethod py_NIL ty name f vm"
| "exec (Call_bindmethod2 ty name f bt) vm = py_bindmethod2 py_NIL ty name f bt vm"
| "exec (Call_bindnativefunc obj name f) vm = py_bindnativefunc py_NIL (cells vm obj) name f vm"
| "exec (Call_newslice out start stop step) vm = py_newslice out start stop step vm"
| "exec (Call_newobject out ty slots udsize) vm =
     call_out out (\<lambda>c. py_newobject c ty slots udsize) vm"

fun run :: "api_call list \<Rightarrow> VM \<Rightarrow> vm_error + VM" where
  "run [] vm = Inr vm"
| "run (c # cs) vm = (case exec c vm of Inl e \<Rightarrow> Inl e | Inr vm' \<Rightarrow> run cs vm')"




text \<open>
  What a step may not do to the objects that exist: the later state still has every
  object of the earlier one at its address, with the same header type and the same
  user-data.
\<close>

definition objects_kept :: "VM \<Rightarrow> VM \<Rightarrow> bool" where
  "objects_kept vm vm' =
     (length (heap vm) \<le> length (heap vm') \<and>
      (\<forall>a < length (heap vm).
         ob_type (heap vm' ! a) = ob_type (heap vm ! a) \<and>
         ob_userdata (heap vm' ! a) = ob_userdata (heap vm ! a)))"

text \<open>
  The object at the address \<open>a\<close> is still there and is the same in every part: header,
  slots, attribute store and user-data.
\<close>

definition same_object :: "nat \<Rightarrow> VM \<Rightarrow> VM \<Rightarrow> bool" where
  "same_object a vm vm' = (a < length (heap vm') \<and> heap vm' ! a = heap vm ! a)"



text \<open>
  The cell invariant of a pointer cell: the flag is set, the payload is the address of an
  object of the heap, and the header of that object records the type tag of the cell.
\<close>

definition points_to_own_type :: "VM \<Rightarrow> py_TValue \<Rightarrow> bool" where
  "points_to_own_type vm c =
     (is_ptr c \<and>
      (case payload c of
         P_obj a \<Rightarrow> a < length (heap vm) \<and> ob_type (heap vm ! a) = type c
       | _ \<Rightarrow> False))"

text \<open>A VM with nothing in it, for the concrete instances below.\<close>

definition vm0 :: VM where
  "vm0 = \<lparr>heap = [], types = [], interned = [], cells = (\<lambda>_. py_NIL), stack = [],
          curr_exception = py_NIL, is_curr_exc_handled = False, last_retval = py_NIL\<rparr>"

text \<open>
  A VM with one type, \<open>object\<close>, whose type object is the heap object at address \<open>0\<close> and
  has an attribute store, and with two interned names.
\<close>

definition vm_demo :: VM where
  "vm_demo = vm0
     \<lparr>heap := [\<lparr>ob_type = tp_type, gc_marked = False, ob_slots = - 1, ob_cells = [],
               ob_dict = Some Map.empty, ob_userdata = []\<rparr>],
      types := [\<lparr>ti_name = [], ti_base = 0, ti_self = py_NIL, ti_module = py_NIL,
                 ti_dtor = None, ti_magic = []\<rparr>,
                \<lparr>ti_name = ''object'', ti_base = 0,
                 ti_self = \<lparr>type = tp_type, is_ptr = True, payload = P_obj 0\<rparr>,
                 ti_module = py_NIL, ti_dtor = None, ti_magic = [py_NIL, py_NIL]\<rparr>],
      interned := [''__new__'', ''__init__'']\<rparr>"

text \<open>The \<open>nativefunc\<close> cell of a function pointer.\<close>

definition nativefunc_cell :: "py_CFunction \<Rightarrow> py_TValue" where
  "nativefunc_cell f = \<lparr>type = tp_nativefunc, is_ptr = False, payload = P_cfunc f\<rparr>"

text \<open>The cell and the heap object that \<^verbatim>\<open>py_newslice\<close> leaves.\<close>

definition slice_cell :: "nat \<Rightarrow> py_TValue" where
  "slice_cell a = \<lparr>type = tp_slice, is_ptr = True, payload = P_obj a\<rparr>"

definition slice_object :: "py_TValue \<Rightarrow> py_TValue \<Rightarrow> py_TValue \<Rightarrow> PyObject" where
  "slice_object x y z =
     \<lparr>ob_type = tp_slice, gc_marked = False, ob_slots = 3, ob_cells = [x, y, z],
      ob_dict = None, ob_userdata = []\<rparr>"

text \<open>A VM whose cell at address \<open>r\<close> holds the \<open>int\<close> \<open>r\<close>.\<close>

definition vm_ints :: VM where
  "vm_ints = vm0\<lparr>cells := (\<lambda>r. py_newint py_NIL (of_nat r))\<rparr>"

text \<open>
  A VM with two types: \<open>object\<close> (id 1), which fills magic slot 2, and \<open>A\<close> (id 2) with
  base \<open>object\<close>, which fills magic slot 1.
\<close>

definition vm_reg :: VM where
  "vm_reg = vm0
     \<lparr>types := [\<lparr>ti_name = [], ti_base = 0, ti_self = py_NIL, ti_module = py_NIL,
                 ti_dtor = None, ti_magic = []\<rparr>,
                \<lparr>ti_name = ''object'', ti_base = 0, ti_self = py_NIL, ti_module = py_NIL,
                 ti_dtor = None, ti_magic = [py_NIL, py_NIL, nativefunc_cell 7]\<rparr>,
                \<lparr>ti_name = ''A'', ti_base = 1, ti_self = py_NIL, ti_module = py_NIL,
                 ti_dtor = None, ti_magic = [py_NIL, nativefunc_cell 8, py_NIL]\<rparr>]\<rparr>"

text \<open>A VM whose value stack is full.\<close>

definition vm_full :: VM where
  "vm_full = vm0\<lparr>stack := replicate PK_VM_STACK_SIZE py_NIL\<rparr>"

section \<open>Properties\<close>

named_theorems tp_defs \<open>values of the predefined type tags\<close>

lemmas tp_values [tp_defs] =
  tp_object_def tp_type_def tp_int_def tp_float_def tp_bool_def tp_str_def tp_slice_def
  tp_function_def tp_nativefunc_def tp_bytes_def tp_NoneType_def tp_NotImplementedType_def
  tp_ellipsis_def tp_StackOverflowError_def tp_none_type_def tp_not_implemented_type_def

subsection \<open>Sizes and stores\<close>

lemma uint_size_t_of_int: "0 \<le> sint (sz::c_int) \<Longrightarrow> uint (size_t_of_int sz) = sint sz"
proof -
  assume a: "0 \<le> sint sz"
  have lt: "sint sz < 2 ^ 31" using sint_lt [of sz] by simp
  have "uint (size_t_of_int sz) = sint sz mod 2 ^ 64"
    unfolding size_t_of_int_def scast_eq uint_word_of_int by simp
  also have "\<dots> = sint sz"
    using a lt by (intro mod_pos_pos_trivial) auto
  finally show ?thesis .
qed

lemma unat_size_t_of_int: "0 \<le> sint (sz::c_int) \<Longrightarrow> unat (size_t_of_int sz) = nat (sint sz)"
  unfolding unat_eq_nat_uint by (simp only: uint_size_t_of_int)

lemma uint_udsize:
  assumes "0 \<le> sint (sz::c_int)"
  shows "uint (of_nat sizeof_int + size_t_of_int sz) = 4 + sint sz"
proof -
  have lt: "sint sz < 2 ^ 31" using sint_lt [of sz] by simp
  have "uint (of_nat sizeof_int + size_t_of_int sz) = (4 + sint sz) mod 2 ^ 64"
    unfolding uint_word_ariths uint_size_t_of_int [OF assms] sizeof_int_def by simp
  also have "\<dots> = 4 + sint sz"
    using assms lt by (intro mod_pos_pos_trivial) auto
  finally show ?thesis .
qed

lemma sint_udsize:
  assumes "0 \<le> sint (sz::c_int)" "sint sz < 2 ^ 31 - 4"
  shows "sint (int_of_size_t (of_nat sizeof_int + size_t_of_int sz)) = 4 + sint sz"
proof -
  have "sint (int_of_size_t (of_nat sizeof_int + size_t_of_int sz))
          = signed_take_bit 31 (4 + sint sz)"
    unfolding int_of_size_t_def ucast_eq uint_udsize [OF assms(1)] sint_sbintrunc' by simp
  also have "\<dots> = 4 + sint sz"
    using assms by (simp add: signed_take_bit_int_eq_self)
  finally show ?thesis .
qed

lemma sint_udsize_overflow:
  assumes "2 ^ 31 - 4 \<le> sint (sz::c_int)"
  shows "sint (int_of_size_t (of_nat sizeof_int + size_t_of_int sz)) < 0"
proof -
  have nn: "0 \<le> sint sz" using assms by simp
  have lt: "sint sz < 2 ^ 31" using sint_lt [of sz] by simp
  have d: "(4 + sint sz) div 2147483648 = 1"
    using assms lt by simp
  have "sint (int_of_size_t (of_nat sizeof_int + size_t_of_int sz))
          = signed_take_bit 31 (4 + sint sz)"
    unfolding int_of_size_t_def ucast_eq uint_udsize [OF nn] sint_sbintrunc' by simp
  moreover have "bit (4 + sint sz) 31"
    unfolding bit_iff_odd using d by simp
  ultimately show ?thesis
    by (simp add: signed_take_bit_negative_iff)
qed

lemma length_int_bytes: "length (int_bytes x) = 4"
  by (simp add: int_bytes_def)

lemma replicate_split:
  "0 \<le> k \<Longrightarrow> replicate (nat (4 + k)) x = replicate 4 x @ replicate (nat k) x"
  by (simp add: nat_add_distrib flip: replicate_add)

lemma sint_total_size:
  assumes "0 \<le> sint (sz :: c_int)" "sint sz < 2 ^ 31 - 5"
  shows "sint (of_nat sizeof_c11_string + sz + 1 :: c_int) = sint sz + 5"
proof -
  have "sint (of_nat sizeof_c11_string + sz + 1 :: c_int) = sint (sz + 5)"
    by (simp add: sizeof_c11_string_def add.commute)
  also have "\<dots> = signed_take_bit 31 (sint sz + 5)"
    by (simp add: sint_word_ariths)
  also have "\<dots> = sint sz + 5"
    using assms by (simp add: signed_take_bit_int_eq_self)
  finally show ?thesis .
qed

lemma py_newbytes_result:
  assumes "0 \<le> sint sz" "nat (sint sz) \<le> length data" "sint sz < 2 ^ 31 - 4"
  shows "py_newbytes out data sz vm =
    Inr (out\<lparr>type := tp_bytes, is_ptr := True, payload := P_obj (length (heap vm))\<rparr>,
         vm\<lparr>heap := heap vm @
            [\<lparr>ob_type = tp_bytes, gc_marked = False, ob_slots = 0, ob_cells = [],
              ob_dict = None,
              ob_userdata = map Some (int_bytes sz @ take (nat (sint sz)) data)\<rparr>]\<rparr>)"
proof -
  let ?n = "nat (sint sz)"
  let ?o = "\<lambda>ud. \<lparr>ob_type = tp_bytes, gc_marked = False, ob_slots = 0, ob_cells = [],
              ob_dict = None, ob_userdata = ud\<rparr>"
  have g: "pk_ManagedHeap__gcnew (heap vm) tp_bytes 0
             (sint (int_of_size_t (of_nat sizeof_int + size_t_of_int sz)))
           = Inr (length (heap vm), heap vm @ [?o (replicate 4 None @ replicate ?n None)])"
    unfolding pk_ManagedHeap__gcnew_def sint_udsize [OF assms(1,3)] replicate_split [OF assms(1)]
    using assms(1) by simp
  have w1: "ud_write 0 (int_bytes sz) (replicate 4 None @ replicate ?n None)
            = Inr (map Some (int_bytes sz) @ replicate ?n None)"
    by (simp add: ud_write_def length_int_bytes)
  have w2: "memcpy sizeof_int data (unat (size_t_of_int sz)) (map Some (int_bytes sz) @ replicate ?n None)
            = Inr (map Some (int_bytes sz) @ map Some (take ?n data))"
    unfolding unat_size_t_of_int [OF assms(1)]
    using assms(2)
    by (simp add: memcpy_def sizeof_int_def ud_write_def length_int_bytes)
  show ?thesis
    unfolding py_newbytes_def g
    by (simp add: PyObject__value_def w1 w2)
qed


lemma py_newstrn_result:
  assumes "0 \<le> sint sz" "sint sz < 2 ^ 31 - 5" "nat (sint sz) \<le> length data"
  shows "py_newstrn out data sz vm =
    Inr (out\<lparr>type := tp_str, is_ptr := True, payload := P_obj (length (heap vm))\<rparr>,
         vm\<lparr>heap := heap vm @
            [\<lparr>ob_type = tp_str, gc_marked = False, ob_slots = 0, ob_cells = [],
              ob_dict = None,
              ob_userdata = map Some (int_bytes sz @ take (nat (sint sz)) data @ [0])\<rparr>]\<rparr>)"
proof -
  let ?n = "nat (sint sz)"
  let ?o = "\<lambda>ud. \<lparr>ob_type = tp_str, gc_marked = False, ob_slots = 0, ob_cells = [],
              ob_dict = None, ob_userdata = ud\<rparr>"
  let ?pre = "map Some (int_bytes sz)"
  let ?ud0 = "replicate 4 None @ replicate ?n None @ [None :: byte option]"
  have a: "nat (sint sz + 5) = 4 + (?n + 1)" using assms(1) by simp
  have r: "replicate (4 + (?n + 1)) None = ?ud0"
    unfolding replicate_add by simp
  have g: "pk_ManagedHeap__gcnew (heap vm) tp_str 0 (sint (of_nat sizeof_c11_string + sz + 1 :: c_int))
           = Inr (length (heap vm), heap vm @ [?o ?ud0])"
    unfolding pk_ManagedHeap__gcnew_def sint_total_size [OF assms(1,2)] a r
    using assms(1) by simp
  have w1: "ud_write 0 (int_bytes sz) ?ud0 = Inr (?pre @ replicate ?n None @ [None])"
    by (simp add: ud_write_def length_int_bytes del: replicate_append_same)
  have w2: "memcpy sizeof_c11_string data (unat (size_t_of_int sz))
              (?pre @ replicate ?n None @ [None])
            = Inr (?pre @ map Some (take ?n data) @ [None])"
    unfolding unat_size_t_of_int [OF assms(1)]
    using assms(3)
    by (simp add: memcpy_def sizeof_c11_string_def ud_write_def length_int_bytes
        del: replicate_append_same)
  have w3: "ud_write (sizeof_c11_string + unat (size_t_of_int sz)) [0]
              (?pre @ map Some (take ?n data) @ [None])
            = Inr (?pre @ map Some (take ?n data) @ [Some 0])"
    unfolding unat_size_t_of_int [OF assms(1)]
    using assms(3)
    by (simp add: sizeof_c11_string_def ud_write_def length_int_bytes)
  have c: "c11_string__ctor2 ?ud0 data sz = Inr (?pre @ map Some (take ?n data) @ [Some 0])"
    unfolding c11_string__ctor2_def w1 by (simp add: w2 w3)
  show ?thesis
    unfolding py_newstrn_def Let_def g
    by (simp add: PyObject__value_def c del: replicate_append_same)
qed

lemma py_newbytes_overflow:
  assumes "2 ^ 31 - 4 \<le> sint sz"
  shows "py_newbytes out data sz vm = Inl InvalidAccess"
  unfolding py_newbytes_def pk_ManagedHeap__gcnew_def
  using sint_udsize_overflow [OF assms] by simp

lemma py_newobject_result:
  assumes "- 1 \<le> sint slots" "0 \<le> sint udsize"
  shows "py_newobject out ty slots udsize vm =
    Inr (out\<lparr>type := ty, is_ptr := True, payload := P_obj (length (heap vm))\<rparr>,
         vm\<lparr>heap := heap vm @
            [\<lparr>ob_type = ty, gc_marked = False, ob_slots = sint slots,
              ob_cells = replicate (nat (sint slots)) py_NIL,
              ob_dict = (if sint slots = - 1 then Some Map.empty else None),
              ob_userdata = replicate (nat (sint udsize)) None\<rparr>]\<rparr>)"
  using assms by (simp add: py_newobject_def pk_ManagedHeap__gcnew_def)

lemma gcnew_Inr:
  "pk_ManagedHeap__gcnew h ty slots udsize = Inr (a, h') \<Longrightarrow>
     a = length h \<and> length h' = Suc (length h) \<and> ob_type (h' ! a) = ty"
  by (auto simp: pk_ManagedHeap__gcnew_def split: if_splits)

lemma py_newobject_inv:
  "py_newobject out ty slots udsize vm = Inr (c, vm') \<Longrightarrow> type c = ty \<and> points_to_own_type vm' c"
  by (auto simp: py_newobject_def points_to_own_type_def split: sum.splits dest!: gcnew_Inr)

lemma py_newbytes_inv:
  "py_newbytes out data sz vm = Inr (c, vm') \<Longrightarrow> type c = tp_bytes \<and> points_to_own_type vm' c"
  by (auto simp: py_newbytes_def points_to_own_type_def split: sum.splits dest!: gcnew_Inr)

lemma py_newstrn_inv:
  "py_newstrn out data sz vm = Inr (c, vm') \<Longrightarrow> type c = tp_str \<and> points_to_own_type vm' c"
  by (auto simp: py_newstrn_def Let_def points_to_own_type_def split: sum.splits dest!: gcnew_Inr)



subsection \<open>No function of \<^verbatim>\<open>values.c\<close> touches an existing user-data region\<close>

lemma objects_kept_refl: "objects_kept vm vm"
  by (simp add: objects_kept_def)

lemma objects_kept_trans:
  "objects_kept vm vm' \<Longrightarrow> objects_kept vm' vm'' \<Longrightarrow> objects_kept vm vm''"
  by (auto simp: objects_kept_def)

lemma objects_kept_heap_eq: "heap vm' = heap vm \<Longrightarrow> objects_kept vm vm'"
  by (simp add: objects_kept_def)

lemma gcnew_append:
  "pk_ManagedHeap__gcnew h ty slots udsize = Inr (a, h') \<Longrightarrow> a = length h \<and> (\<exists>ob. h' = h @ [ob])"
  by (auto simp: pk_ManagedHeap__gcnew_def split: if_splits)

lemma objects_kept_alloc:
  "heap vm' = (heap vm @ [ob])[length (heap vm) := ob'] \<Longrightarrow> objects_kept vm vm'"
  by (simp add: objects_kept_def nth_append)

lemma py_newobject_kept:
  "py_newobject c ty slots udsize vm = Inr (c', vm') \<Longrightarrow> objects_kept vm vm'"
  by (auto simp: py_newobject_def objects_kept_def nth_append split: sum.splits dest!: gcnew_append)

lemma py_newbytes_kept:
  "py_newbytes c data sz vm = Inr (c', vm') \<Longrightarrow> objects_kept vm vm'"
  by (auto simp: py_newbytes_def objects_kept_def nth_append split: sum.splits dest!: gcnew_append)

lemma py_newstrn_kept:
  "py_newstrn c data sz vm = Inr (c', vm') \<Longrightarrow> objects_kept vm vm'"
  by (auto simp: py_newstrn_def Let_def objects_kept_def nth_append split: sum.splits dest!: gcnew_append)

lemma py_newstr_kept:
  "py_newstr c data vm = Inr (c', vm') \<Longrightarrow> objects_kept vm vm'"
  by (auto simp: py_newstr_def split: option.splits dest: py_newstrn_kept)

lemma py_setdict_kept:
  "py_setdict self name val vm = Inr vm' \<Longrightarrow> objects_kept vm vm'"
  by (auto simp: py_setdict_def objects_kept_def nth_list_update
      split: if_splits payload.splits option.splits)

lemma py_setslot_kept:
  "py_setslot self i val vm = Inr vm' \<Longrightarrow> objects_kept vm vm'"
  by (auto simp: py_setslot_def objects_kept_def nth_list_update
      split: if_splits payload.splits)

lemma py_name_heap:
  "py_name s vm = Inr (n, vm') \<Longrightarrow> heap vm' = heap vm \<and> types vm' = types vm \<and> cells vm' = cells vm"
  by (auto simp: py_name_def split: option.splits if_splits)

lemma py_bindnativefunc_kept:
  "py_bindnativefunc tmp obj name f vm = Inr vm' \<Longrightarrow> objects_kept vm vm'"
  by (auto simp: py_bindnativefunc_def Let_def split: sum.splits
      dest!: py_name_heap py_setdict_kept intro: objects_kept_trans objects_kept_heap_eq)

lemma py_bindmethod2_kept:
  "py_bindmethod2 tmp ty name f bt vm = Inr vm' \<Longrightarrow> objects_kept vm vm'"
  by (auto simp: py_bindmethod2_def Let_def split: sum.splits
      dest!: py_name_heap py_setdict_kept intro: objects_kept_trans objects_kept_heap_eq)

lemma call_out_kept:
  assumes "\<And>c c' vm'. f c vm = Inr (c', vm') \<Longrightarrow> objects_kept vm vm'"
  shows "call_out out f vm = Inr vm' \<Longrightarrow> objects_kept vm vm'"
  using assms by (auto simp: call_out_def objects_kept_def split: sum.splits)

lemma set_out_kept: "set_out out f vm = Inr vm' \<Longrightarrow> objects_kept vm vm'"
  by (auto simp: set_out_def objects_kept_def)

lemma py_newslice_kept:
  assumes "py_newslice out start stop step vm = Inr vm'"
  shows "objects_kept vm vm'"
proof -
  from assms obtain vm1 vm2 vm3 where
    1: "call_out out (\<lambda>c. py_newobject c tp_slice 3 0) vm = Inr vm1" and
    2: "py_setslot (cells vm1 out) 0 (cells vm1 start) vm1 = Inr vm2" and
    3: "py_setslot (cells vm2 out) 1 (cells vm2 stop) vm2 = Inr vm3" and
    4: "py_setslot (cells vm3 out) 2 (cells vm3 step) vm3 = Inr vm'"
    by (auto simp: py_newslice_def split: sum.splits)
  have "objects_kept vm vm1"
    using 1 by (rule call_out_kept [rotated]) (rule py_newobject_kept)
  with 2 3 4 show ?thesis
    by (blast intro: objects_kept_trans dest: py_setslot_kept)
qed

lemma exec_kept: "exec c vm = Inr vm' \<Longrightarrow> objects_kept vm vm'"
proof (cases c)
  case (Call_newstr out data)
  then show "exec c vm = Inr vm' \<Longrightarrow> ?thesis"
    by (auto elim!: call_out_kept [rotated] dest: py_newstr_kept)
next
  case (Call_newstrn out data sz)
  then show "exec c vm = Inr vm' \<Longrightarrow> ?thesis"
    by (auto elim!: call_out_kept [rotated] dest: py_newstrn_kept)
next
  case (Call_newbytes out data sz)
  then show "exec c vm = Inr vm' \<Longrightarrow> ?thesis"
    by (auto elim!: call_out_kept [rotated] dest: py_newbytes_kept)
next
  case (Call_newobject out ty slots udsize)
  then show "exec c vm = Inr vm' \<Longrightarrow> ?thesis"
    by (auto elim!: call_out_kept [rotated] dest: py_newobject_kept)
next
  case (Call_newfunction out f sig)
  then show "exec c vm = Inr vm' \<Longrightarrow> ?thesis"
    by (auto simp: call_out_def py_newfunction_def py_newfunction2_def objects_kept_def)
next
  case (Call_newfunction2 out f sig bt d u)
  then show "exec c vm = Inr vm' \<Longrightarrow> ?thesis"
    by (auto simp: call_out_def py_newfunction2_def objects_kept_def)
qed (auto dest: set_out_kept py_bindmethod2_kept py_bindnativefunc_kept py_newslice_kept
       simp: py_bindmethod_def)

lemma run_kept: "run cs vm = Inr vm' \<Longrightarrow> objects_kept vm vm'"
proof (induction cs arbitrary: vm)
  case Nil
  then show ?case by (simp add: objects_kept_refl)
next
  case (Cons c cs)
  then show ?case
    by (auto split: sum.splits dest!: exec_kept intro: objects_kept_trans)
qed

subsection \<open>Bindings\<close>

lemma py_newnativefunc_tmp: "py_newnativefunc tmp f = nativefunc_cell f"
  by (simp add: py_newnativefunc_def nativefunc_cell_def)

lemma py_bindmethod2_eq:
  "py_bindmethod2 tmp ty name f bt vm =
     (case py_tpobject ty vm of
        Inl e \<Rightarrow> Inl e
      | Inr self \<Rightarrow>
         (case py_name name vm of
            Inl e \<Rightarrow> Inl e
          | Inr (n, vm1) \<Rightarrow> py_setdict self n (nativefunc_cell f) vm1))"
  by (simp add: py_bindmethod2_def py_newnativefunc_tmp)

lemma py_bindnativefunc_eq:
  "py_bindnativefunc tmp obj name f vm =
     (case py_name name vm of
        Inl e \<Rightarrow> Inl e
      | Inr (n, vm1) \<Rightarrow> py_setdict obj n (nativefunc_cell f) vm1)"
  by (simp add: py_bindnativefunc_def py_newnativefunc_tmp)

lemma py_setdict_Inr:
  "py_setdict self n val vm = Inr vm' \<Longrightarrow>
     \<exists>a d. is_ptr self \<and> payload self = P_obj a \<and> a < length (heap vm)
        \<and> ob_dict (heap vm ! a) = Some d
        \<and> vm' = vm\<lparr>heap := (heap vm)[a := (heap vm ! a)\<lparr>ob_dict := Some (d(n \<mapsto> val))\<rparr>]\<rparr>"
  by (auto simp: py_setdict_def split: if_splits payload.splits option.splits)

subsection \<open>An object without slots and attribute store is never changed\<close>



lemma same_object_heap_eq:
  "heap vm' = heap vm \<Longrightarrow> a < length (heap vm) \<Longrightarrow> same_object a vm vm'"
  by (simp add: same_object_def)



















subsection \<open>Slices\<close>

lemma cell_all_fields:
  "(c :: py_TValue)\<lparr>type := t, is_ptr := b, payload := p\<rparr> = \<lparr>type = t, is_ptr = b, payload = p\<rparr>"
  by (cases c) simp

lemma py_newslice_result:
  fixes vm :: VM and out :: py_Ref
  defines "a \<equiv> length (heap vm)"
  defines "cs \<equiv> (cells vm)(out := slice_cell a)"
  shows "py_newslice out start stop step vm =
           Inr (vm\<lparr>heap := heap vm @ [slice_object (cs start) (cs stop) (cs step)],
                   cells := cs\<rparr>)"
proof -
  have s: "- 1 \<le> sint (3 :: c_int)" "0 \<le> sint (0 :: c_int)" by simp_all
  let ?vm1 = "vm\<lparr>heap := heap vm @ [slice_object py_NIL py_NIL py_NIL], cells := cs\<rparr>"
  have 1: "call_out out (\<lambda>c. py_newobject c tp_slice 3 0) vm = Inr ?vm1"
    unfolding call_out_def py_newobject_result [OF s]
    by (simp add: slice_object_def cs_def a_def slice_cell_def eval_nat_numeral cell_all_fields)
  let ?vm2 = "vm\<lparr>heap := heap vm @ [slice_object (cs start) py_NIL py_NIL], cells := cs\<rparr>"
  have 2: "py_setslot (cells ?vm1 out) 0 (cells ?vm1 start) ?vm1 = Inr ?vm2"
    by (simp add: py_setslot_def cs_def a_def slice_cell_def slice_object_def)
  let ?vm3 = "vm\<lparr>heap := heap vm @ [slice_object (cs start) (cs stop) py_NIL], cells := cs\<rparr>"
  have 3: "py_setslot (cells ?vm2 out) 1 (cells ?vm2 stop) ?vm2 = Inr ?vm3"
    by (simp add: py_setslot_def cs_def a_def slice_cell_def slice_object_def)
  let ?vm4 = "vm\<lparr>heap := heap vm @ [slice_object (cs start) (cs stop) (cs step)], cells := cs\<rparr>"
  have 4: "py_setslot (cells ?vm3 out) 2 (cells ?vm3 step) ?vm3 = Inr ?vm4"
    by (simp add: py_setslot_def cs_def a_def slice_cell_def slice_object_def)
  show ?thesis
    unfolding py_newslice_def 1 sum.case 2 3 4 ..
qed

text \<open>
  \<^verbatim>\<open>py_newslice\<close> returns and creates one heap object of type \<^verbatim>\<open>tp_slice\<close> with exactly 3
  slots; \<open>out\<close> becomes a pointer cell to it and no other cell changes. The slots hold the
  contents that \<open>start\<close>, \<open>stop\<close> and \<open>step\<close> have when \<^verbatim>\<open>py_setslot\<close> reads them; when \<open>out\<close>
  is none of the three cells, these are the contents the cells were passed with.
\<close>

lemma py_newslice_slots:
  "\<exists>vm'. py_newslice out start stop step vm = Inr vm'
      \<and> cells vm' = (cells vm)(out := slice_cell (length (heap vm)))
      \<and> points_to_own_type vm' (cells vm' out)
      \<and> heap vm' = heap vm @ [heap vm' ! length (heap vm)]
      \<and> ob_type (heap vm' ! length (heap vm)) = tp_slice
      \<and> ob_slots (heap vm' ! length (heap vm)) = 3
      \<and> ob_cells (heap vm' ! length (heap vm)) = [cells vm' start, cells vm' stop, cells vm' step]
      \<and> (out \<noteq> start \<and> out \<noteq> stop \<and> out \<noteq> step \<longrightarrow>
            ob_cells (heap vm' ! length (heap vm)) = [cells vm start, cells vm stop, cells vm step])"
  unfolding py_newslice_result
  by (simp add: slice_object_def slice_cell_def points_to_own_type_def)

subsection \<open>The name pool\<close>

lemma index_of_Some: "index_of x xs = Some i \<Longrightarrow> i < length xs \<and> xs ! i = x"
  by (induction xs arbitrary: i) (auto split: if_splits)

lemma index_of_None: "(index_of x xs = None) = (x \<notin> set xs)"
  by (induction xs) auto

lemma index_of_nth: "distinct xs \<Longrightarrow> i < length xs \<Longrightarrow> index_of (xs ! i) xs = Some i"
proof (induction xs arbitrary: i)
  case Nil
  then show ?case by simp
next
  case (Cons y ys)
  then show ?case by (cases i) auto
qed

lemma unat_name_id: "k \<le> max_names \<Longrightarrow> unat (of_nat k :: py_Name) = k"
  by (simp add: max_names_def unat_of_nat)

lemma name_id_unat: "(of_nat (unat n) :: py_Name) = n"
  by simp

lemma unat_pos: "(n :: py_Name) \<noteq> 0 \<Longrightarrow> 0 < unat n"
  by (simp add: unat_gt_0)

lemma interned_index:
  "is_interned vm n \<Longrightarrow> 0 < unat n \<and> unat n - 1 < length (interned vm)"
  using unat_pos [of n] by (auto simp: is_interned_def)

lemma py_name2str_interned:
  "is_interned vm n \<Longrightarrow> py_name2str n vm = Inr (interned vm ! (unat n - 1))"
  by (simp add: is_interned_def py_name2str_def)

lemma py_name_of_interned:
  assumes "pool_inv vm" "is_interned vm n"
  shows "py_name (interned vm ! (unat n - 1)) vm = Inr (n, vm)"
proof -
  from interned_index [OF assms(2)] have p: "0 < unat n" "unat n - 1 < length (interned vm)"
    by simp_all
  with assms(1) have "index_of (interned vm ! (unat n - 1)) (interned vm) = Some (unat n - 1)"
    by (simp add: pool_inv_def index_of_nth)
  moreover from p have "Suc (unat n - 1) = unat n" by simp
  ultimately show ?thesis
    by (simp add: py_name_def)
qed

lemma py_name_Inr:
  assumes "pool_inv vm" "py_name b vm = Inr (n, vm')"
  shows "py_name2str n vm' = Inr b" "is_interned vm' n" "pool_inv vm'" "names_kept vm vm'"
    "heap vm' = heap vm" "types vm' = types vm"
proof -
  have "py_name2str n vm' = Inr b \<and> is_interned vm' n \<and> pool_inv vm' \<and> names_kept vm vm'
        \<and> heap vm' = heap vm \<and> types vm' = types vm"
  proof (cases "index_of b (interned vm)")
    case (Some i)
    with assms(2) have e: "n = of_nat (Suc i)" "vm' = vm" by (simp_all add: py_name_def)
    from index_of_Some [OF Some] have i: "i < length (interned vm)" "interned vm ! i = b"
      by simp_all
    with assms(1) have u: "unat (of_nat (Suc i) :: py_Name) = Suc i"
      by (intro unat_name_id) (simp add: pool_inv_def)
    from u have nz: "(of_nat (Suc i) :: py_Name) \<noteq> 0"
      by (metis nat.distinct(1) unat_0)
    show ?thesis
      using i assms(1) u nz unfolding e
      by (simp add: py_name2str_def is_interned_def names_kept_def)
  next
    case None
    with assms(2) have l: "length (interned vm) < max_names"
      and e: "n = of_nat (Suc (length (interned vm)))" "vm' = vm\<lparr>interned := interned vm @ [b]\<rparr>"
      by (auto simp: py_name_def split: if_splits)
    from l have u: "unat (of_nat (Suc (length (interned vm))) :: py_Name) = Suc (length (interned vm))"
      by (intro unat_name_id) simp
    from u have nz: "(of_nat (Suc (length (interned vm))) :: py_Name) \<noteq> 0"
      by (metis nat.distinct(1) unat_0)
    from None have nin: "b \<notin> set (interned vm)" by (simp add: index_of_None)
    show ?thesis
      using l assms(1) u nz nin unfolding e
      by (simp add: py_name2str_def is_interned_def names_kept_def pool_inv_def)
  qed
  then show "py_name2str n vm' = Inr b" "is_interned vm' n" "pool_inv vm'" "names_kept vm vm'"
    "heap vm' = heap vm" "types vm' = types vm"
    by simp_all
qed

lemma py_name_fails:
  "(\<exists>e. py_name b vm = Inl e) = (b \<notin> set (interned vm) \<and> max_names \<le> length (interned vm))"
proof (cases "index_of b (interned vm)")
  case None
  then show ?thesis by (simp add: py_name_def index_of_None [symmetric])
next
  case (Some i)
  then have "index_of b (interned vm) \<noteq> None" by simp
  then have "b \<in> set (interned vm)" by (simp add: index_of_None)
  with Some show ?thesis by (simp add: py_name_def)
qed

lemma names_kept_lookup:
  assumes "names_kept vm vm'" "is_interned vm m"
  shows "is_interned vm' m" "py_name2str m vm' = py_name2str m vm"
proof -
  from assms(2) interned_index [OF assms(2)]
  have p: "m \<noteq> 0" "unat m - 1 < length (interned vm)" "unat m \<le> length (interned vm)"
    by (auto simp: is_interned_def)
  from assms(1) have l: "length (interned vm) \<le> length (interned vm')"
    and t: "take (length (interned vm)) (interned vm') = interned vm"
    by (simp_all add: names_kept_def)
  from p l show "is_interned vm' m" by (simp add: is_interned_def)
  have "interned vm' ! (unat m - 1) = take (length (interned vm)) (interned vm') ! (unat m - 1)"
    using p by simp
  also have "\<dots> = interned vm ! (unat m - 1)" by (simp only: t)
  finally show "py_name2str m vm' = py_name2str m vm"
    using p l by (simp add: py_name2str_def)
qed

lemma interned_injective:
  assumes "pool_inv vm" "is_interned vm m" "is_interned vm n"
    and "py_name2str m vm = py_name2str n vm"
  shows "m = n"
proof -
  from interned_index [OF assms(2)] interned_index [OF assms(3)]
  have p: "unat m - 1 < length (interned vm)" "unat n - 1 < length (interned vm)"
    "0 < unat m" "0 < unat n"
    by simp_all
  from assms(4) have "interned vm ! (unat m - 1) = interned vm ! (unat n - 1)"
    by (simp add: py_name2str_interned assms(2,3))
  with assms(1) p have "unat m - 1 = unat n - 1"
    by (simp add: pool_inv_def nth_eq_iff_index_eq)
  with p have "unat m = unat n" by simp
  then show ?thesis by (simp add: word_unat_eq_iff)
qed

lemma py_setdict_interned: "py_setdict self n val vm = Inr vm' \<Longrightarrow> interned vm' = interned vm"
  by (auto simp: py_setdict_def split: if_splits payload.splits option.splits)

lemma py_setslot_interned: "py_setslot self i val vm = Inr vm' \<Longrightarrow> interned vm' = interned vm"
  by (auto simp: py_setslot_def split: if_splits payload.splits)

lemma py_newobject_interned:
  "py_newobject c ty slots udsize vm = Inr (c', vm') \<Longrightarrow> interned vm' = interned vm"
  by (auto simp: py_newobject_def split: sum.splits)

lemma py_newbytes_interned:
  "py_newbytes c data sz vm = Inr (c', vm') \<Longrightarrow> interned vm' = interned vm"
  by (auto simp: py_newbytes_def split: sum.splits)

lemma py_newstrn_interned:
  "py_newstrn c data sz vm = Inr (c', vm') \<Longrightarrow> interned vm' = interned vm"
  by (auto simp: py_newstrn_def Let_def split: sum.splits)

lemma py_newstr_interned:
  "py_newstr c data vm = Inr (c', vm') \<Longrightarrow> interned vm' = interned vm"
  by (auto simp: py_newstr_def split: option.splits dest: py_newstrn_interned)

lemma call_out_interned:
  assumes "\<And>c c' vm'. f c vm = Inr (c', vm') \<Longrightarrow> interned vm' = interned vm"
  shows "call_out out f vm = Inr vm' \<Longrightarrow> interned vm' = interned vm"
  using assms by (auto simp: call_out_def split: sum.splits)

lemma py_newslice_interned:
  assumes "py_newslice out start stop step vm = Inr vm'"
  shows "interned vm' = interned vm"
proof -
  from assms obtain vm1 vm2 vm3 where
    1: "call_out out (\<lambda>c. py_newobject c tp_slice 3 0) vm = Inr vm1" and
    2: "py_setslot (cells vm1 out) 0 (cells vm1 start) vm1 = Inr vm2" and
    3: "py_setslot (cells vm2 out) 1 (cells vm2 stop) vm2 = Inr vm3" and
    4: "py_setslot (cells vm3 out) 2 (cells vm3 step) vm3 = Inr vm'"
    by (auto simp: py_newslice_def split: sum.splits)
  have "interned vm1 = interned vm"
    using 1 by (rule call_out_interned [rotated]) (rule py_newobject_interned)
  with py_setslot_interned [OF 2] py_setslot_interned [OF 3] py_setslot_interned [OF 4]
  show ?thesis by simp
qed

lemma py_bindnativefunc_interned:
  "py_bindnativefunc tmp obj name f vm = Inr vm' \<Longrightarrow>
     \<exists>n vm1. py_name name vm = Inr (n, vm1) \<and> interned vm' = interned vm1"
  by (auto simp: py_bindnativefunc_def Let_def split: sum.splits dest: py_setdict_interned)

lemma py_bindmethod2_interned:
  "py_bindmethod2 tmp ty name f bt vm = Inr vm' \<Longrightarrow>
     \<exists>n vm1. py_name name vm = Inr (n, vm1) \<and> interned vm' = interned vm1"
  by (auto simp: py_bindmethod2_def Let_def split: sum.splits dest: py_setdict_interned)

lemma exec_interned:
  "exec c vm = Inr vm' \<Longrightarrow>
     interned vm' = interned vm
     \<or> (\<exists>b n vm1. py_name b vm = Inr (n, vm1) \<and> interned vm' = interned vm1)"
proof (cases c)
  case (Call_newstr out data)
  then show "exec c vm = Inr vm' \<Longrightarrow> ?thesis"
    by (auto elim!: call_out_interned [rotated] dest: py_newstr_interned)
next
  case (Call_newstrn out data sz)
  then show "exec c vm = Inr vm' \<Longrightarrow> ?thesis"
    by (auto elim!: call_out_interned [rotated] dest: py_newstrn_interned)
next
  case (Call_newbytes out data sz)
  then show "exec c vm = Inr vm' \<Longrightarrow> ?thesis"
    by (auto elim!: call_out_interned [rotated] dest: py_newbytes_interned)
next
  case (Call_newobject out ty slots udsize)
  then show "exec c vm = Inr vm' \<Longrightarrow> ?thesis"
    by (auto elim!: call_out_interned [rotated] dest: py_newobject_interned)
next
  case (Call_newfunction out f sig)
  then show "exec c vm = Inr vm' \<Longrightarrow> ?thesis"
    by (auto simp: call_out_def py_newfunction_def py_newfunction2_def)
next
  case (Call_newfunction2 out f sig bt d u)
  then show "exec c vm = Inr vm' \<Longrightarrow> ?thesis"
    by (auto simp: call_out_def py_newfunction2_def)
next
  case (Call_bindmethod ty name f)
  then show "exec c vm = Inr vm' \<Longrightarrow> ?thesis"
    by (simp add: py_bindmethod_def) (blast dest: py_bindmethod2_interned)
next
  case (Call_bindmethod2 ty name f bt)
  then show "exec c vm = Inr vm' \<Longrightarrow> ?thesis"
    by simp (blast dest: py_bindmethod2_interned)
next
  case (Call_bindnativefunc obj name f)
  then show "exec c vm = Inr vm' \<Longrightarrow> ?thesis"
    by simp (blast dest: py_bindnativefunc_interned)
next
  case (Call_newslice out start stop step)
  then show "exec c vm = Inr vm' \<Longrightarrow> ?thesis"
    by (simp add: py_newslice_interned)
qed (auto simp: set_out_def)

lemma names_kept_refl: "names_kept vm vm"
  by (simp add: names_kept_def)

lemma names_kept_trans:
  assumes "names_kept vm vm'" "names_kept vm' vm''"
  shows "names_kept vm vm''"
proof -
  let ?a = "interned vm" and ?b = "interned vm'" and ?c = "interned vm''"
  from assms have l: "length ?a \<le> length ?b" "length ?b \<le> length ?c"
    and t: "take (length ?a) ?b = ?a" "take (length ?b) ?c = ?b"
    by (simp_all add: names_kept_def)
  have "take (length ?a) ?c = take (length ?a) (take (length ?b) ?c)"
    using l by (simp add: min_def)
  also have "\<dots> = ?a" by (simp only: t)
  finally show ?thesis using l by (simp add: names_kept_def)
qed

lemma exec_pool:
  assumes "pool_inv vm" "exec c vm = Inr vm'"
  shows "pool_inv vm' \<and> names_kept vm vm'"
proof -
  from exec_interned [OF assms(2)] show ?thesis
  proof
    assume "interned vm' = interned vm"
    with assms(1) show ?thesis by (simp add: pool_inv_def names_kept_def)
  next
    assume "\<exists>b n vm1. py_name b vm = Inr (n, vm1) \<and> interned vm' = interned vm1"
    then obtain b n vm1 where p: "py_name b vm = Inr (n, vm1)" and e: "interned vm' = interned vm1"
      by blast
    from py_name_Inr(3,4) [OF assms(1) p] e show ?thesis
      by (simp add: pool_inv_def names_kept_def)
  qed
qed

lemma run_pool:
  "pool_inv vm \<Longrightarrow> run cs vm = Inr vm' \<Longrightarrow> pool_inv vm' \<and> names_kept vm vm'"
proof (induction cs arbitrary: vm)
  case Nil
  then show ?case by (simp add: names_kept_refl)
next
  case (Cons c cs)
  from Cons.prems(2) obtain vm1 where e: "exec c vm = Inr vm1" and r: "run cs vm1 = Inr vm'"
    by (auto split: sum.splits)
  from exec_pool [OF Cons.prems(1) e] have 1: "pool_inv vm1" "names_kept vm vm1" by simp_all
  from Cons.IH [OF 1(1) r] 1(2) show ?case
    by (blast intro: names_kept_trans)
qed

subsection \<open>The walk up the base chain\<close>

lemma base_chain_unique:
  "base_chain ts t c1 \<Longrightarrow> base_chain ts t c2 \<Longrightarrow> c1 = c2"
proof (induction arbitrary: c2 rule: base_chain.induct)
  case (root ts t)
  note h = root.hyps
  from root.prems show ?case
  proof (cases rule: base_chain.cases)
    case root
    then show ?thesis by simp
  next
    case (step bs)
    with h show ?thesis by simp
  qed
next
  case (step ts t bs)
  note h = step.hyps and ih = step.IH
  from step.prems show ?case
  proof (cases rule: base_chain.cases)
    case root
    with h show ?thesis by simp
  next
    case (step bs')
    with ih show ?thesis by simp
  qed
qed

lemma base_chain_hd: "base_chain ts t c \<Longrightarrow> c \<noteq> [] \<and> hd c = t \<and> (\<forall>u \<in> set c. valid_type ts u)"
  by (induction rule: base_chain.induct) auto

lemma magic_deref_slot:
  "valid_type ts t \<Longrightarrow> has_magic_slot ts name t \<Longrightarrow>
     magic_deref ts (py_tpgetmagic t name) = Inr (ti_magic (ts ! type_index t) ! unat name)"
  by (simp add: py_tpgetmagic_def has_magic_slot_def)

lemma magic_nonnil_slot:
  "valid_type ts t \<Longrightarrow> has_magic_slot ts name t \<Longrightarrow>
     magic_nonnil ts name t = (\<not> py_isnil (ti_magic (ts ! type_index t) ! unat name))"
  by (simp add: magic_nonnil_def magic_deref_slot)

lemma walk_chain:
  assumes "base_chain ts t chain" and "\<forall>u \<in> set chain. has_magic_slot ts name u"
  shows "tpfindmagic_walk ts t name =
           Some (Inr (map_option (\<lambda>u. py_tpgetmagic u name) (find (magic_nonnil ts name) chain)))"
  using assms
proof (induction rule: base_chain.induct)
  case (root ts t)
  then have s: "has_magic_slot ts name t" by simp
  show ?case
    by (subst tpfindmagic_walk.simps)
       (simp add: magic_deref_slot [OF root.hyps(1) s] magic_nonnil_slot [OF root.hyps(1) s] root.hyps(2))
next
  case (step ts t bs)
  then have s: "has_magic_slot ts name t" and r: "\<forall>u \<in> set bs. has_magic_slot ts name u"
    by simp_all
  note ih = step.IH [OF r]
  show ?case
    by (subst tpfindmagic_walk.simps)
       (simp add: magic_deref_slot [OF step.hyps(1) s] magic_nonnil_slot [OF step.hyps(1) s]
          step.hyps(2) ih)
qed

lemma wf_registry_chain:
  assumes "wf_registry ts"
  shows "valid_type ts t \<Longrightarrow> \<exists>chain. base_chain ts t chain"
proof (induction "type_index t" arbitrary: t rule: less_induct)
  case less
  let ?b = "ti_base (ts ! type_index t)"
  show ?case
  proof (cases "?b = 0")
    case True
    with less.prems show ?thesis by (blast intro: base_chain.root)
  next
    case False
    from assms less.prems False have b: "valid_type ts ?b" "type_index ?b < type_index t"
      unfolding wf_registry_def by blast+
    from less.hyps [OF b(2) b(1)] obtain bs where "base_chain ts ?b bs" by blast
    with less.prems False show ?thesis by (blast intro: base_chain.step)
  qed
qed

lemma find_None_set: "(find P xs = None) = (\<forall>x \<in> set xs. \<not> P x)"
  by (induction xs) auto

lemma find_Some_holds: "find P xs = Some x \<Longrightarrow> P x \<and> x \<in> set xs"
  by (induction xs) (auto split: if_splits)

subsection \<open>Pushes\<close>

lemma py_push_bounded:
  "length (stack vm) \<le> PK_VM_STACK_SIZE \<Longrightarrow> length (stack (py_push src vm)) \<le> PK_VM_STACK_SIZE"
  by (simp add: py_push_def py_exception_def pk_ManagedHeap__gcnew_def)

lemma pushes_bounded:
  "length (stack vm) \<le> PK_VM_STACK_SIZE \<Longrightarrow>
     length (stack (fold py_push srcs vm)) \<le> PK_VM_STACK_SIZE"
  by (induction srcs arbitrary: vm) (simp_all add: py_push_bounded)

lemma pushes_fit:
  "length (stack vm) + length srcs \<le> PK_VM_STACK_SIZE \<Longrightarrow>
     fold py_push srcs vm = vm\<lparr>stack := stack vm @ srcs\<rparr>"
proof (induction srcs arbitrary: vm)
  case Nil
  then show ?case by simp
next
  case (Cons x xs)
  from Cons.prems have 1: "py_push x vm = vm\<lparr>stack := stack vm @ [x]\<rparr>"
    by (simp add: py_push_def)
  from Cons.prems have 2: "length (stack (vm\<lparr>stack := stack vm @ [x]\<rparr>)) + length xs \<le> PK_VM_STACK_SIZE"
    by simp
  show ?case
    by (simp add: 1 Cons.IH [OF 2])
qed

subsection \<open>The claims\<close>

text \<open>
  Claim C1. Every value constructor establishes the cell invariant. The immediate
  constructors \<^verbatim>\<open>py_newint\<close>, \<^verbatim>\<open>py_newfloat\<close>, \<^verbatim>\<open>py_newbool\<close>, \<^verbatim>\<open>py_newnone\<close>,
  \<^verbatim>\<open>py_newnotimplemented\<close>, \<^verbatim>\<open>py_newellipsis\<close> and \<^verbatim>\<open>py_newnativefunc\<close> leave a cell with
  their type tag and \<^verbatim>\<open>is_ptr = false\<close>, whatever the cell held before (the constructors
  of \<open>None\<close>, \<open>NotImplemented\<close> and \<open>...\<close> do not assign the payload). The heap
  constructors \<^verbatim>\<open>py_newstrn\<close>, \<^verbatim>\<open>py_newbytes\<close> and \<^verbatim>\<open>py_newobject\<close>, whenever they return,
  leave a cell with \<^verbatim>\<open>is_ptr = true\<close> that points to an object of the heap whose header
  records the type tag of the cell; and they do return on every call inside the domain
  of the C code (a size that is not negative, does not exceed the buffer passed and
  keeps the size of the user-data within an \<^verbatim>\<open>int\<close>: \<^verbatim>\<open>int total_size\<close> of \<^verbatim>\<open>py_newstrn\<close>,
  that is \<open>size + 5\<close>, and \<^verbatim>\<open>sizeof(int) + size\<close> of \<^verbatim>\<open>py_newbytes\<close>; a slot count of at
  least \<open>-1\<close>).
\<close>

theorem value_constructors_cell_invariant:
  "(type (py_newint out i) = tp_int \<and> \<not> is_ptr (py_newint out i))
   \<and> (type (py_newfloat out d) = tp_float \<and> \<not> is_ptr (py_newfloat out d))
   \<and> (type (py_newbool out b) = tp_bool \<and> \<not> is_ptr (py_newbool out b))
   \<and> (type (py_newnone out) = tp_none_type \<and> \<not> is_ptr (py_newnone out))
   \<and> (type (py_newnotimplemented out) = tp_not_implemented_type
        \<and> \<not> is_ptr (py_newnotimplemented out))
   \<and> (type (py_newellipsis out) = tp_ellipsis \<and> \<not> is_ptr (py_newellipsis out))
   \<and> (type (py_newnativefunc out f) = tp_nativefunc \<and> \<not> is_ptr (py_newnativefunc out f))
   \<and> (\<forall>c vm'. py_newstrn out data sz vm = Inr (c, vm')
          \<longrightarrow> type c = tp_str \<and> points_to_own_type vm' c)
   \<and> (\<forall>c vm'. py_newbytes out data sz vm = Inr (c, vm')
          \<longrightarrow> type c = tp_bytes \<and> points_to_own_type vm' c)
   \<and> (\<forall>c vm'. py_newobject out ty slots udsize vm = Inr (c, vm')
          \<longrightarrow> type c = ty \<and> points_to_own_type vm' c)
   \<and> (0 \<le> sint sz \<and> sint sz < 2 ^ 31 - 5 \<and> nat (sint sz) \<le> length data
        \<longrightarrow> (\<exists>c vm'. py_newstrn out data sz vm = Inr (c, vm')))
   \<and> (0 \<le> sint sz \<and> sint sz < 2 ^ 31 - 4 \<and> nat (sint sz) \<le> length data
        \<longrightarrow> (\<exists>c vm'. py_newbytes out data sz vm = Inr (c, vm')))
   \<and> (- 1 \<le> sint slots \<and> 0 \<le> sint udsize
        \<longrightarrow> (\<exists>c vm'. py_newobject out ty slots udsize vm = Inr (c, vm')))"
proof -
  have imm: "(type (py_newint out i) = tp_int \<and> \<not> is_ptr (py_newint out i))
   \<and> (type (py_newfloat out d) = tp_float \<and> \<not> is_ptr (py_newfloat out d))
   \<and> (type (py_newbool out b) = tp_bool \<and> \<not> is_ptr (py_newbool out b))
   \<and> (type (py_newnone out) = tp_none_type \<and> \<not> is_ptr (py_newnone out))
   \<and> (type (py_newnotimplemented out) = tp_not_implemented_type
        \<and> \<not> is_ptr (py_newnotimplemented out))
   \<and> (type (py_newellipsis out) = tp_ellipsis \<and> \<not> is_ptr (py_newellipsis out))
   \<and> (type (py_newnativefunc out f) = tp_nativefunc \<and> \<not> is_ptr (py_newnativefunc out f))"
    by (simp add: py_newint_def py_newfloat_def py_newbool_def py_newnone_def
        py_newnotimplemented_def py_newellipsis_def py_newnativefunc_def)
  have s1: "0 \<le> sint sz \<and> sint sz < 2 ^ 31 - 5 \<and> nat (sint sz) \<le> length data
        \<longrightarrow> (\<exists>c vm'. py_newstrn out data sz vm = Inr (c, vm'))"
    using py_newstrn_result [of sz data out vm] by blast
  have s2: "0 \<le> sint sz \<and> sint sz < 2 ^ 31 - 4 \<and> nat (sint sz) \<le> length data
        \<longrightarrow> (\<exists>c vm'. py_newbytes out data sz vm = Inr (c, vm'))"
    using py_newbytes_result [of sz data out vm] by blast
  have s3: "- 1 \<le> sint slots \<and> 0 \<le> sint udsize
        \<longrightarrow> (\<exists>c vm'. py_newobject out ty slots udsize vm = Inr (c, vm'))"
    using py_newobject_result [of slots udsize out ty vm] by blast
  from imm s1 s2 s3 show ?thesis
    using py_newstrn_inv [of out data sz vm] py_newbytes_inv [of out data sz vm]
      py_newobject_inv [of out ty slots udsize vm]
    by blast
qed

theorem value_constructors_cell_invariant_witness:
  "\<not> is_ptr (py_newint py_NIL 7)
   \<and> \<not> is_ptr (py_newnone \<lparr>type = tp_str, is_ptr = True, payload = P_obj 0\<rparr>)
   \<and> (\<exists>c vm'. py_newstrn py_NIL [104, 105, 0] 2 vm0 = Inr (c, vm') \<and> points_to_own_type vm' c)
   \<and> (\<exists>c vm'. py_newbytes py_NIL [104, 105, 0] 2 vm0 = Inr (c, vm') \<and> points_to_own_type vm' c)
   \<and> (\<exists>c vm'. py_newobject py_NIL tp_slice 3 0 vm0 = Inr (c, vm') \<and> points_to_own_type vm' c)"
proof -
  have h: "0 \<le> sint (2 :: c_int)" "sint (2 :: c_int) < 2 ^ 31 - 5"
    "sint (2 :: c_int) < 2 ^ 31 - 4"
    "nat (sint (2 :: c_int)) \<le> length [104, 105, 0 :: byte]"
    "- 1 \<le> sint (3 :: c_int)" "0 \<le> sint (0 :: c_int)"
    by simp_all
  note t = value_constructors_cell_invariant
    [where out = py_NIL and data = "[104, 105, 0]" and sz = 2 and vm = vm0
       and ty = tp_slice and slots = 3 and udsize = 0 and i = 7]
  have a: "\<not> is_ptr (py_newint py_NIL 7)" using t by blast
  have b: "\<not> is_ptr (py_newnone \<lparr>type = tp_str, is_ptr = True, payload = P_obj 0\<rparr>)"
    using value_constructors_cell_invariant
      [where out = "\<lparr>type = tp_str, is_ptr = True, payload = P_obj 0\<rparr>"]
    by blast
  from t h a b show ?thesis by blast
qed

text \<open>
  Claim C8. \<^verbatim>\<open>py_newfunction2\<close> returns without changing the output cell or the VM, for
  every function pointer, signature, bind type, docstring and upvalue; so does
  \<^verbatim>\<open>py_newfunction\<close>, which therefore leaves a cell of type \<^verbatim>\<open>tp_function\<close> only where
  the cell had that type before the call. Called through a reference, both leave the
  whole state as it was.
\<close>

theorem py_newfunction2_changes_nothing:
  "py_newfunction2 out f sig bt docstring upvalue vm = (out, vm)
   \<and> py_newfunction out f sig vm = (out, vm)
   \<and> (type (fst (py_newfunction out f sig vm)) = tp_function) = (type out = tp_function)
   \<and> exec (Call_newfunction2 r f sig bt docstring up) vm = Inr vm
   \<and> exec (Call_newfunction r f sig) vm = Inr vm"
  by (simp add: py_newfunction2_def py_newfunction_def call_out_def)


text \<open>
  Claim C10. \<^verbatim>\<open>py_newnull(out)\<close> writes only the type tag, which becomes \<open>0\<close> (nil); the
  \<^verbatim>\<open>is_ptr\<close> flag and the payload of the cell are what they were before the call. In
  particular the nil cell made from a cell that carried the heap pointer \<open>a\<close> still has
  \<^verbatim>\<open>is_ptr\<close> set and still carries \<open>a\<close>.
\<close>

theorem py_newnull_writes_only_type:
  "type (py_newnull out) = 0
   \<and> py_isnil (py_newnull out)
   \<and> is_ptr (py_newnull out) = is_ptr out
   \<and> payload (py_newnull out) = payload out
   \<and> py_newnull out = out\<lparr>type := 0\<rparr>
   \<and> py_newnull \<lparr>type = t, is_ptr = True, payload = P_obj a\<rparr>
       = \<lparr>type = 0, is_ptr = True, payload = P_obj a\<rparr>"
  by (simp add: py_newnull_def py_isnil_def)




text \<open>
  Claim C9. \<^verbatim>\<open>py_bindmethod2(type, name, f, bt)\<close> ignores \<open>bt\<close>, and what the uninitialised
  local held: it has the same outcome for every bind type, the same as
  \<^verbatim>\<open>py_bindmethod(type, name, f)\<close> and the same as \<^verbatim>\<open>py_bindnativefunc(py_tpobject(type),
  name, f)\<close>. Whenever it returns, the state it leaves is the state after \<^verbatim>\<open>py_name(name)\<close>
  in which the attribute store of the type object has received, under the id of
  \<open>name\<close>, the plain \<open>nativefunc\<close> cell of \<open>f\<close>.
\<close>

theorem py_bindmethod2_ignores_bind_type:
  "py_bindmethod2 tmp ty name f bt vm = py_bindmethod2 tmp' ty name f bt' vm
   \<and> py_bindmethod2 tmp ty name f bt vm = py_bindmethod tmp' ty name f vm
   \<and> py_bindmethod2 tmp ty name f bt vm =
       (case py_tpobject ty vm of
          Inl e \<Rightarrow> Inl e
        | Inr obj \<Rightarrow> py_bindnativefunc tmp' obj name f vm)
   \<and> (\<forall>vm'. py_bindmethod2 tmp ty name f bt vm = Inr vm' \<longrightarrow>
         (\<exists>self n vm1 a d.
            py_tpobject ty vm = Inr self \<and> py_name name vm = Inr (n, vm1)
            \<and> is_ptr self \<and> payload self = P_obj a \<and> a < length (heap vm)
            \<and> ob_dict (heap vm ! a) = Some d
            \<and> vm' = vm1\<lparr>heap := (heap vm)[a := (heap vm ! a)
                  \<lparr>ob_dict := Some (d(n \<mapsto> \<lparr>type = tp_nativefunc, is_ptr = False,
                                               payload = P_cfunc f\<rparr>))\<rparr>]\<rparr>))"
proof -
  have e1: "py_bindmethod2 tmp ty name f bt vm = py_bindmethod2 tmp' ty name f bt' vm"
    by (simp add: py_bindmethod2_eq)
  have e2: "py_bindmethod2 tmp ty name f bt vm = py_bindmethod tmp' ty name f vm"
    by (simp add: py_bindmethod_def py_bindmethod2_eq)
  have e3: "py_bindmethod2 tmp ty name f bt vm =
       (case py_tpobject ty vm of
          Inl e \<Rightarrow> Inl e
        | Inr obj \<Rightarrow> py_bindnativefunc tmp' obj name f vm)"
    by (simp add: py_bindmethod2_eq py_bindnativefunc_eq split: sum.splits)
  have e4: "\<exists>self n vm1 a d.
            py_tpobject ty vm = Inr self \<and> py_name name vm = Inr (n, vm1)
            \<and> is_ptr self \<and> payload self = P_obj a \<and> a < length (heap vm)
            \<and> ob_dict (heap vm ! a) = Some d
            \<and> vm' = vm1\<lparr>heap := (heap vm)[a := (heap vm ! a)
                  \<lparr>ob_dict := Some (d(n \<mapsto> \<lparr>type = tp_nativefunc, is_ptr = False,
                                               payload = P_cfunc f\<rparr>))\<rparr>]\<rparr>"
    if "py_bindmethod2 tmp ty name f bt vm = Inr vm'" for vm'
  proof -
    from that obtain self n vm1 where
      a: "py_tpobject ty vm = Inr self" and b: "py_name name vm = Inr (n, vm1)" and
      c: "py_setdict self n (nativefunc_cell f) vm1 = Inr vm'"
      by (auto simp: py_bindmethod2_eq split: sum.splits)
    from b have h: "heap vm1 = heap vm"
      by (rule py_name_heap [THEN conjunct1])
    from py_setdict_Inr [OF c] h a b show ?thesis
      by (auto simp: nativefunc_cell_def)
  qed
  from e1 e2 e3 e4 show ?thesis by blast
qed

theorem py_bindmethod2_ignores_bind_type_witness:
  "(\<exists>vm' d. py_bindmethod2 py_NIL tp_object ''foo'' 42 BindType_CLASSMETHOD vm_demo = Inr vm'
      \<and> py_bindmethod \<lparr>type = tp_int, is_ptr = False, payload = P_i64 9\<rparr> tp_object ''foo'' 42 vm_demo
         = Inr vm'
      \<and> interned vm' = [''__new__'', ''__init__'', ''foo'']
      \<and> ob_dict (heap vm' ! 0) = Some d
      \<and> d 3 = Some \<lparr>type = tp_nativefunc, is_ptr = False, payload = P_cfunc 42\<rparr>)"
proof -
  note t = py_bindmethod2_ignores_bind_type
    [where tmp = py_NIL and ty = tp_object and name = "''foo''" and f = 42
       and bt = BindType_CLASSMETHOD and vm = vm_demo
       and tmp' = "\<lparr>type = tp_int, is_ptr = False, payload = P_i64 9\<rparr>"]
  have tp: "py_tpobject tp_object vm_demo = Inr \<lparr>type = tp_type, is_ptr = True, payload = P_obj 0\<rparr>"
    by (simp add: py_tpobject_def valid_type_def type_index_def vm_demo_def vm0_def tp_object_def)
  have nm: "py_name ''foo'' vm_demo
              = Inr (3, vm_demo\<lparr>interned := [''__new__'', ''__init__'', ''foo'']\<rparr>)"
    by (simp add: py_name_def vm_demo_def vm0_def max_names_def)
  have ok: "\<exists>vm'. py_bindmethod2 py_NIL tp_object ''foo'' 42 BindType_CLASSMETHOD vm_demo = Inr vm'"
    unfolding py_bindmethod2_eq tp nm
    by (simp add: py_setdict_def vm_demo_def vm0_def)
  then obtain vm' where r: "py_bindmethod2 py_NIL tp_object ''foo'' 42 BindType_CLASSMETHOD vm_demo = Inr vm'"
    by blast
  from t r obtain self n vm1 a d where
    "py_tpobject tp_object vm_demo = Inr self" "py_name ''foo'' vm_demo = Inr (n, vm1)"
    "payload self = P_obj a" "ob_dict (heap vm_demo ! a) = Some d"
    and v: "vm' = vm1\<lparr>heap := (heap vm_demo)[a := (heap vm_demo ! a)
                  \<lparr>ob_dict := Some (d(n \<mapsto> \<lparr>type = tp_nativefunc, is_ptr = False,
                                               payload = P_cfunc 42\<rparr>))\<rparr>]\<rparr>"
    by blast
  with tp nm have s: "a = 0" "n = 3" "vm1 = vm_demo\<lparr>interned := [''__new__'', ''__init__'', ''foo'']\<rparr>"
    by auto
  have "interned vm' = [''__new__'', ''__init__'', ''foo'']
      \<and> (\<exists>d. ob_dict (heap vm' ! 0) = Some d
      \<and> d 3 = Some \<lparr>type = tp_nativefunc, is_ptr = False, payload = P_cfunc 42\<rparr>)"
    unfolding v s by (simp add: vm_demo_def vm0_def)
  moreover from t r
  have "py_bindmethod \<lparr>type = tp_int, is_ptr = False, payload = P_i64 9\<rparr> tp_object ''foo'' 42 vm_demo
         = Inr vm'" by simp
  ultimately show ?thesis using r by blast
qed

text \<open>
  Claim C5. For every triple of cells \<open>start\<close>, \<open>stop\<close>, \<open>step\<close>, \<^verbatim>\<open>py_newslice\<close> creates a
  heap object of type \<^verbatim>\<open>tp_slice\<close> with exactly 3 slots, and slots 0, 1 and 2 equal
  \<open>start\<close>, \<open>stop\<close> and \<open>step\<close>. The code does so when \<open>out\<close> is none of the three cells
  (\<open>py_newslice_slots\<close> above) and misses it when \<open>out\<close> is also \<open>start\<close>: \<^verbatim>\<open>py_newobject\<close>
  has overwritten the cell by the time \<^verbatim>\<open>py_setslot(out, 0, start)\<close> reads it. With the
  \<open>int\<close> \<open>1\<close> in cell \<open>1\<close>, the call \<^verbatim>\<open>py_newslice(&c1, &c1, &c2, &c3)\<close> returns and
  leaves a slice whose slot 0 is not the \<open>int\<close> \<open>1\<close> that was passed as \<open>start\<close> but the
  pointer cell of the slice itself.
\<close>

theorem py_newslice_aliased_start_stores_slice:
  "py_newslice 1 1 2 3 vm_ints =
     Inr (vm_ints\<lparr>heap := [slice_object (slice_cell 0) (cells vm_ints 2) (cells vm_ints 3)],
                  cells := (cells vm_ints)(1 := slice_cell 0)\<rparr>)
   \<and> ob_cells (slice_object (slice_cell 0) (cells vm_ints 2) (cells vm_ints 3)) ! 0
       = slice_cell 0
   \<and> cells vm_ints 1 = \<lparr>type = tp_int, is_ptr = False, payload = P_i64 1\<rparr>
   \<and> slice_cell 0 = \<lparr>type = tp_slice, is_ptr = True, payload = P_obj 0\<rparr>
   \<and> slice_cell 0 \<noteq> cells vm_ints 1"
  unfolding py_newslice_result
  by (simp add: slice_cell_def slice_object_def vm_ints_def vm0_def py_newint_def py_NIL_def)

text \<open>
  Claim C3. For every type \<open>T\<close> whose base chain is \<open>T = T\<^sub>0, T\<^sub>1, \<dots>\<close> and every magic name
  (a name that indexes a magic slot in each of these types), \<^verbatim>\<open>py_tpfindmagic(T, name)\<close>
  returns, and what it returns is the reference \<^verbatim>\<open>py_tpgetmagic(T\<^sub>i, name)\<close> of the first
  ancestor in base-chain order whose slot is not nil. It is \<^verbatim>\<open>NULL\<close> exactly when the slot
  of every ancestor is nil. A reference it returns points to a cell that is not nil.
  The chain starts at \<open>T\<close> and is the only base chain of \<open>T\<close>.
\<close>

theorem py_tpfindmagic_first_nonnil:
  assumes "base_chain (types vm) T chain"
    and "\<forall>u \<in> set chain. has_magic_slot (types vm) name u"
  shows "py_tpfindmagic T name vm =
           Some (Inr (map_option (\<lambda>u. py_tpgetmagic u name)
                        (find (magic_nonnil (types vm) name) chain)))
     \<and> (py_tpfindmagic T name vm = Some (Inr None))
         = (\<forall>u \<in> set chain. \<not> magic_nonnil (types vm) name u)
     \<and> (\<forall>r. py_tpfindmagic T name vm = Some (Inr (Some r)) \<longrightarrow>
           (\<exists>u f. u \<in> set chain \<and> r = py_tpgetmagic u name
              \<and> magic_deref (types vm) r = Inr f \<and> \<not> py_isnil f))
     \<and> hd chain = T
     \<and> (\<forall>c'. base_chain (types vm) T c' \<longrightarrow> c' = chain)"
proof -
  let ?P = "magic_nonnil (types vm) name"
  have w: "py_tpfindmagic T name vm =
           Some (Inr (map_option (\<lambda>u. py_tpgetmagic u name) (find ?P chain)))"
    unfolding py_tpfindmagic_def by (rule walk_chain [OF assms])
  have n: "(py_tpfindmagic T name vm = Some (Inr None)) = (\<forall>u \<in> set chain. \<not> ?P u)"
    unfolding w by (simp add: find_None_set)
  have f: "\<exists>u f. u \<in> set chain \<and> r = py_tpgetmagic u name
              \<and> magic_deref (types vm) r = Inr f \<and> \<not> py_isnil f"
    if "py_tpfindmagic T name vm = Some (Inr (Some r))" for r
  proof -
    from that obtain u where u: "find ?P chain = Some u" and r: "r = py_tpgetmagic u name"
      unfolding w by auto
    from find_Some_holds [OF u] have "?P u" "u \<in> set chain" by simp_all
    then show ?thesis
      using r by (auto simp: magic_nonnil_def split: sum.splits)
  qed
  have h: "hd chain = T"
    using base_chain_hd [OF assms(1)] by simp
  have q: "c' = chain" if "base_chain (types vm) T c'" for c'
    using base_chain_unique [OF that assms(1)] .
  from w n f h q show ?thesis by blast
qed

theorem py_tpfindmagic_first_nonnil_witness:
  "py_tpfindmagic 2 2 vm_reg = Some (Inr (Some (py_tpgetmagic 1 2)))
   \<and> py_tpfindmagic 2 1 vm_reg = Some (Inr (Some (py_tpgetmagic 2 1)))
   \<and> py_tpfindmagic 2 0 vm_reg = Some (Inr None)"
proof -
  have v: "valid_type (types vm_reg) 2" "valid_type (types vm_reg) 1"
    by (simp_all add: valid_type_def type_index_def vm_reg_def vm0_def)
  have b: "ti_base (types vm_reg ! type_index 2) = 1" "ti_base (types vm_reg ! type_index 1) = 0"
    by (simp_all add: type_index_def vm_reg_def vm0_def)
  have c1: "base_chain (types vm_reg) 1 [1]"
    using v(2) b(2) by (rule base_chain.root)
  have c: "base_chain (types vm_reg) 2 [2, 1]"
    by (rule base_chain.step [OF v(1)]) (simp_all add: b c1)
  have s: "\<forall>u \<in> set [2, 1]. has_magic_slot (types vm_reg) n u" if "n = 0 \<or> n = 1 \<or> n = 2" for n
    using that by (auto simp: has_magic_slot_def type_index_def vm_reg_def vm0_def)
  have m: "magic_nonnil (types vm_reg) 2 2 = False" "magic_nonnil (types vm_reg) 2 1 = True"
    "magic_nonnil (types vm_reg) 1 2 = True"
    "magic_nonnil (types vm_reg) 0 2 = False" "magic_nonnil (types vm_reg) 0 1 = False"
    by (simp_all add: magic_nonnil_def py_tpgetmagic_def valid_type_def type_index_def
        vm_reg_def vm0_def py_isnil_def py_NIL_def nativefunc_cell_def tp_nativefunc_def)
  from py_tpfindmagic_first_nonnil [OF c s, of 2] py_tpfindmagic_first_nonnil [OF c s, of 1]
    py_tpfindmagic_first_nonnil [OF c s, of 0]
  show ?thesis by (simp add: m)
qed

text \<open>
  Claim C6. In a well-formed name pool, interning the bytes that the lookup of an
  interned id \<open>n\<close> returns yields \<open>n\<close> again and leaves the pool as it is; looking up the
  id that interning a byte sequence \<open>b\<close> returns yields \<open>b\<close> again, and the pool stays well
  formed. Interning fails only for a new sequence when all ids are in use. Distinct ids
  name distinct sequences and distinct sequences get distinct ids, so the pool is a
  bijection between the interned sequences and their ids. What the lookup of an
  interned id returns stays the same after any run of calls of the functions of
  \<^verbatim>\<open>values.c\<close>.
\<close>

theorem name_pool_bijection:
  assumes "pool_inv vm"
  shows "(\<forall>n. is_interned vm n \<longrightarrow>
            (\<exists>b. py_name2str n vm = Inr b \<and> py_name b vm = Inr (n, vm)))
     \<and> (\<forall>b n vm'. py_name b vm = Inr (n, vm') \<longrightarrow>
            py_name2str n vm' = Inr b \<and> is_interned vm' n \<and> pool_inv vm')
     \<and> (\<forall>b. (\<exists>e. py_name b vm = Inl e)
              = (b \<notin> set (interned vm) \<and> max_names \<le> length (interned vm)))
     \<and> (\<forall>m n. is_interned vm m \<and> is_interned vm n \<and> py_name2str m vm = py_name2str n vm
            \<longrightarrow> m = n)
     \<and> (\<forall>b n vm1 b' n' vm2. py_name b vm = Inr (n, vm1) \<and> py_name b' vm1 = Inr (n', vm2)
            \<longrightarrow> (n = n') = (b = b'))
     \<and> (\<forall>cs vm'. run cs vm = Inr vm' \<longrightarrow>
            pool_inv vm'
            \<and> (\<forall>m. is_interned vm m \<longrightarrow>
                  is_interned vm' m \<and> py_name2str m vm' = py_name2str m vm))"
proof -
  have a: "\<exists>b. py_name2str n vm = Inr b \<and> py_name b vm = Inr (n, vm)" if "is_interned vm n" for n
    using py_name2str_interned [OF that] py_name_of_interned [OF assms that] by simp
  have b: "py_name2str n vm' = Inr b \<and> is_interned vm' n \<and> pool_inv vm'"
    if "py_name b vm = Inr (n, vm')" for b n vm'
    using py_name_Inr(1,2,3) [OF assms that] by simp
  have c: "(\<exists>e. py_name b vm = Inl e)
              = (b \<notin> set (interned vm) \<and> max_names \<le> length (interned vm))" for b
    by (rule py_name_fails)
  have d: "m = n"
    if "is_interned vm m \<and> is_interned vm n \<and> py_name2str m vm = py_name2str n vm" for m n
    using that interned_injective [OF assms, of m n] by simp
  have e: "(n = n') = (b = b')"
    if "py_name b vm = Inr (n, vm1) \<and> py_name b' vm1 = Inr (n', vm2)" for b n vm1 b' n' vm2
  proof -
    from that have 1: "py_name b vm = Inr (n, vm1)" and 2: "py_name b' vm1 = Inr (n', vm2)"
      by simp_all
    note p1 = py_name_Inr [OF assms 1]
    note p2 = py_name_Inr [OF p1(3) 2]
    from names_kept_lookup [OF p2(4) p1(2)] p1(1)
    have n2: "is_interned vm2 n" "py_name2str n vm2 = Inr b" by simp_all
    show ?thesis
    proof
      assume "n = n'"
      with n2(2) p2(1) show "b = b'" by simp
    next
      assume "b = b'"
      with n2 p2(1,2) interned_injective [OF p2(3), of n n'] show "n = n'" by simp
    qed
  qed
  have f: "pool_inv vm'
            \<and> (\<forall>m. is_interned vm m \<longrightarrow>
                  is_interned vm' m \<and> py_name2str m vm' = py_name2str m vm)"
    if "run cs vm = Inr vm'" for cs vm'
    using run_pool [OF assms that] names_kept_lookup by blast
  from a b c d e f show ?thesis by blast
qed

theorem name_pool_bijection_witness:
  "py_name2str 2 vm_demo = Inr ''__init__''
   \<and> py_name ''__init__'' vm_demo = Inr (2, vm_demo)
   \<and> (\<exists>vm'. py_name ''foo'' vm_demo = Inr (3, vm')
         \<and> py_name2str 3 vm' = Inr ''foo''
         \<and> py_name2str 2 vm' = Inr ''__init__'')"
proof -
  have inv: "pool_inv vm_demo"
    by (simp add: pool_inv_def vm_demo_def vm0_def max_names_def)
  note t = name_pool_bijection [OF inv]
  have i2: "is_interned vm_demo 2"
    by (simp add: is_interned_def vm_demo_def vm0_def)
  have l: "py_name2str 2 vm_demo = Inr ''__init__''"
    by (simp add: py_name2str_def vm_demo_def vm0_def)
  from t i2 l have r: "py_name ''__init__'' vm_demo = Inr (2, vm_demo)"
    by fastforce
  have nm: "py_name ''foo'' vm_demo
              = Inr (3, vm_demo\<lparr>interned := [''__new__'', ''__init__'', ''foo'']\<rparr>)"
    by (simp add: py_name_def vm_demo_def vm0_def max_names_def)
  from t nm have f: "py_name2str 3 (vm_demo\<lparr>interned := [''__new__'', ''__init__'', ''foo'']\<rparr>)
                      = Inr ''foo''"
    by blast
  have k: "py_name2str 2 (vm_demo\<lparr>interned := [''__new__'', ''__init__'', ''foo'']\<rparr>)
                      = Inr ''__init__''"
    by (simp add: py_name2str_def)
  from l r nm f k show ?thesis by blast
qed

text \<open>
  Claim C7. In every VM state in which the height of the value stack equals
  \<^verbatim>\<open>PK_VM_STACK_SIZE\<close> (16384 cells), pushing one more value raises \<open>StackOverflowError\<close>:
  the exception slot holds an exception of that type, not handled, and the stack is
  unchanged, so nothing is written past it. Below that height \<^verbatim>\<open>py_push\<close> puts the value
  on top and leaves the exception slot as it is. No sequence of pushes takes the height
  above \<^verbatim>\<open>PK_VM_STACK_SIZE\<close>, and a sequence that fits under it puts all its values on the
  stack without raising.
\<close>

theorem py_push_stack_overflow:
  "(length (stack vm) = PK_VM_STACK_SIZE \<longrightarrow>
      stack (py_push src vm) = stack vm
      \<and> type (curr_exception (py_push src vm)) = tp_StackOverflowError
      \<and> points_to_own_type (py_push src vm) (curr_exception (py_push src vm))
      \<and> \<not> is_curr_exc_handled (py_push src vm))
   \<and> (length (stack vm) < PK_VM_STACK_SIZE \<longrightarrow>
      py_push src vm = vm\<lparr>stack := stack vm @ [src]\<rparr>
      \<and> length (stack (py_push src vm)) = Suc (length (stack vm))
      \<and> last (stack (py_push src vm)) = src
      \<and> curr_exception (py_push src vm) = curr_exception vm
      \<and> is_curr_exc_handled (py_push src vm) = is_curr_exc_handled vm)
   \<and> (length (stack vm) \<le> PK_VM_STACK_SIZE \<longrightarrow>
      length (stack (fold py_push srcs vm)) \<le> PK_VM_STACK_SIZE)
   \<and> (length (stack vm) + length srcs \<le> PK_VM_STACK_SIZE \<longrightarrow>
      fold py_push srcs vm = vm\<lparr>stack := stack vm @ srcs\<rparr>)
   \<and> PK_VM_STACK_SIZE = 16384"
proof -
  have full: "length (stack vm) = PK_VM_STACK_SIZE \<longrightarrow>
      stack (py_push src vm) = stack vm
      \<and> type (curr_exception (py_push src vm)) = tp_StackOverflowError
      \<and> points_to_own_type (py_push src vm) (curr_exception (py_push src vm))
      \<and> \<not> is_curr_exc_handled (py_push src vm)"
    by (simp add: py_push_def py_exception_def pk_ManagedHeap__gcnew_def points_to_own_type_def)
  have room: "length (stack vm) < PK_VM_STACK_SIZE \<longrightarrow>
      py_push src vm = vm\<lparr>stack := stack vm @ [src]\<rparr>
      \<and> length (stack (py_push src vm)) = Suc (length (stack vm))
      \<and> last (stack (py_push src vm)) = src
      \<and> curr_exception (py_push src vm) = curr_exception vm
      \<and> is_curr_exc_handled (py_push src vm) = is_curr_exc_handled vm"
    by (simp add: py_push_def)
  have size: "PK_VM_STACK_SIZE = 16384"
    by (simp add: PK_VM_STACK_SIZE_def)
  from full room size pushes_bounded [of vm srcs] pushes_fit [of vm srcs]
  show ?thesis by blast
qed

theorem py_push_stack_overflow_witness:
  "length (stack vm_full) = 16384
   \<and> stack (py_push (py_newint py_NIL 1) vm_full) = stack vm_full
   \<and> type (curr_exception (py_push (py_newint py_NIL 1) vm_full)) = tp_StackOverflowError
   \<and> curr_exception vm_full = py_NIL
   \<and> stack (py_push (py_newint py_NIL 1) vm0) = [py_newint py_NIL 1]
   \<and> curr_exception (py_push (py_newint py_NIL 1) vm0) = py_NIL"
proof -
  have f: "length (stack vm_full) = PK_VM_STACK_SIZE"
    by (simp add: vm_full_def)
  have e: "length (stack vm0) < PK_VM_STACK_SIZE"
    by (simp add: vm0_def PK_VM_STACK_SIZE_def)
  have z: "stack vm0 = []" "curr_exception vm0 = py_NIL" "curr_exception vm_full = py_NIL"
    by (simp_all add: vm0_def vm_full_def)
  from py_push_stack_overflow [of vm_full "py_newint py_NIL 1"]
       py_push_stack_overflow [of vm0 "py_newint py_NIL 1"] f e z
  show ?thesis by simp
qed

end
